theory Spec2Isabelle
  imports Main "HOL-Library.Word" "HOL-Library.Char_ord" "HOL-Library.List_Lexorder"
begin

section \<open>Data containers (model/container.h, model/container.cc)\<close>

subsection \<open>Errors and element types\<close>

text \<open>
  \<open>NS_ABORT_MSG\<close> ends the process with a message; \<open>std::vector::at\<close> throws
  \<open>std::out_of_range\<close>. Both are values of \<open>error\<close>, and a function that can reach one
  of them returns \<open>error + 'a\<close>.
\<close>

datatype error = Abort string | out_of_range

text \<open>
  The four instantiations of \<open>OpenGymBoxContainer<T>\<close> at the end of container.cc.
  \<open>int32_t\<close> and \<open>uint32_t\<close> are 32-bit words (read through \<open>sint\<close> and \<open>unat\<close>).
  The code only stores, copies and zero-initialises \<open>float\<close> and \<open>double\<close> values, so
  they are carried as their IEEE-754 bit patterns; the literal \<open>0\<close> is the all-zero word
  in every case.
\<close>

type_synonym uint32_t = "32 word"
type_synonym int32_t = "32 word"
type_synonym float32 = "32 word"
type_synonym float64 = "64 word"

text \<open>
  The enumeration \<open>ns3penv::Dtype\<close> with its values \<open>INT\<close>, \<open>UINT\<close>,
  \<open>FLOAT\<close> and \<open>DOUBLE\<close>; a fifth value stands for every number the wire can carry
  that is none of the four (the \<open>default\<close> branches of the code).
\<close>

datatype Dtype = Dtype_INT | Dtype_UINT | Dtype_FLOAT | Dtype_DOUBLE | Dtype_UNRECOGNIZED

subsection \<open>Wire messages\<close>

text \<open>
  Modelled from the spec: the generated header messages.pb.h is not part of the sources.
  Section 6 gives the schema: \<open>DataContainer\<close> is a oneof of
  \<open>Discrete{data}\<close>, \<open>Box{shape, dtype, intData|uintData|floatData|doubleData}\<close>,
  \<open>Tuple{element}\<close> and \<open>Dict{element annotated with name}\<close>. An unset oneof is
  \<open>DATA_NOT_SET\<close>, and an unset string is empty.
\<close>

record BoxDataContainer =
  shape :: "uint32_t list"
  dtype :: Dtype
  uintData :: "uint32_t list"
  intData :: "int32_t list"
  floatData :: "float32 list"
  doubleData :: "float64 list"

datatype DataContainer = DataContainer (name: string) (data_case: data_oneof)
and data_oneof =
    DATA_NOT_SET
  | kDiscrete uint32_t
  | kBox BoxDataContainer
  | kTuple "DataContainer list"
  | kDict "DataContainer list"

definition set_name :: "string \<Rightarrow> DataContainer \<Rightarrow> DataContainer" where
  "set_name nm msg = DataContainer nm (data_case msg)"

definition BoxDataContainer_empty :: BoxDataContainer where
  "BoxDataContainer_empty =
     \<lparr>shape = [], dtype = Dtype_INT, uintData = [], intData = [], floatData = [], doubleData = []\<rparr>"

subsection \<open>The container classes\<close>

text \<open>
  \<open>m_data\<close> of a Box, tagged with the template argument \<open>T\<close> it was instantiated at.
\<close>

datatype box_data =
    Box_int32 "int32_t list"
  | Box_uint32 "uint32_t list"
  | Box_float "float32 list"
  | Box_double "float64 list"

text \<open>
  The class hierarchy under \<open>OpenGymDataContainer\<close> as a closed variant. Children are
  held through \<open>Ptr\<close>; both \<open>GetDataContainerPbMsg\<close> and \<open>Print\<close> dereference every
  child without a check, so the trees modelled are those whose children are all non-null
  (the decoder builds no other). A null \<open>Ptr\<close> returned by a getter is \<open>None\<close>.

  \<open>m_dict\<close> is a \<open>std::map<std::string, Ptr>\<close>: the list of its entries in
  iteration order, which the map keeps strictly ascending by key.
\<close>

datatype container =
    Discrete (m_n: uint32_t) (m_value: uint32_t)
  | Box (m_shape: "uint32_t list") (m_data: box_data)
  | Tuple (m_tuple: "container list")
  | Dict (m_dict: "(string \<times> container) list")

subsubsection \<open>std::map\<close>

text \<open>
  \<open>std::map::insert\<close> walks down by comparing keys with \<open><\<close> and stores the pair only
  where no equivalent key is met; \<open>std::map::find\<close> returns the entry of the key or
  \<open>end()\<close>. \<open>std::string\<close> compares lexicographically, byte by byte.
\<close>

fun map_insert :: "'k::linorder \<Rightarrow> 'v \<Rightarrow> ('k \<times> 'v) list \<Rightarrow> ('k \<times> 'v) list" where
  "map_insert k v [] = [(k, v)]"
| "map_insert k v ((k', v') # m) =
     (if k < k' then (k, v) # (k', v') # m
      else if k' < k then (k', v') # map_insert k v m
      else (k', v') # m)"

fun map_find :: "'k \<Rightarrow> ('k \<times> 'v) list \<Rightarrow> 'v option" where
  "map_find k [] = None"
| "map_find k ((k', v') # m) = (if k = k' then Some v' else map_find k m)"

definition map_inv :: "('k::linorder \<times> 'v) list \<Rightarrow> bool" where
  "map_inv m = sorted_wrt (<) (map fst m)"

subsubsection \<open>OpenGymBoxContainer\<close>

text \<open>
  \<open>SetDtype\<close> decides on the string \<open>TypeNameGet<T>()\<close>, which ns-3 provides; the
  string is the argument here.
\<close>

definition SetDtype :: "string \<Rightarrow> error + Dtype" where
  "SetDtype nm =
     (if nm = ''int8_t'' \<or> nm = ''int16_t'' \<or> nm = ''int32_t'' \<or> nm = ''int64_t''
      then Inr Dtype_INT
      else if nm = ''uint8_t'' \<or> nm = ''uint16_t'' \<or> nm = ''uint32_t'' \<or> nm = ''uint64_t''
      then Inr Dtype_UINT
      else if nm = ''float'' then Inr Dtype_FLOAT
      else if nm = ''double'' then Inr Dtype_DOUBLE
      else Inl (Abort (''Unsupported data type: '' @ nm)))"

text \<open>
  The constructor \<open>OpenGymBoxContainer(shape)\<close> at the element type named \<open>nm\<close>: it
  stores the shape, runs \<open>SetDtype\<close> and leaves \<open>m_data\<close> empty. The result is the
  pair \<open>(m_shape, m_dtype)\<close> of the new object. The default constructor is the same with an
  empty shape.
\<close>

definition OpenGymBoxContainer :: "string \<Rightarrow> uint32_t list \<Rightarrow> error + (uint32_t list \<times> Dtype)" where
  "OpenGymBoxContainer nm shp =
     (case SetDtype nm of Inl e \<Rightarrow> Inl e | Inr dt \<Rightarrow> Inr (shp, dt))"

text \<open>\<open>TypeNameGet<T>()\<close> at the four instantiations (ns3/type-name.h).\<close>

fun TypeNameGet :: "box_data \<Rightarrow> string" where
  "TypeNameGet (Box_int32 _) = ''int32_t''"
| "TypeNameGet (Box_uint32 _) = ''uint32_t''"
| "TypeNameGet (Box_float _) = ''float''"
| "TypeNameGet (Box_double _) = ''double''"

text \<open>
  \<open>m_dtype\<close> is private and assigned by \<open>SetDtype\<close> in the constructors only, so it is
  a function of \<open>T\<close>; \<open>m_dtype_SetDtype\<close> below shows it is the value \<open>SetDtype\<close>
  computes.
\<close>

fun m_dtype :: "box_data \<Rightarrow> Dtype" where
  "m_dtype (Box_int32 _) = Dtype_INT"
| "m_dtype (Box_uint32 _) = Dtype_UINT"
| "m_dtype (Box_float _) = Dtype_FLOAT"
| "m_dtype (Box_double _) = Dtype_DOUBLE"

definition at :: "'a list \<Rightarrow> nat \<Rightarrow> error + 'a" where
  "at xs i = (if i < length xs then Inr (xs ! i) else Inl out_of_range)"

text \<open>\<open>GetValue\<close>, generic in \<open>T\<close> as the template is. \<open>idx\<close> is a \<open>uint32_t\<close>
  compared with a \<open>size_t\<close>.\<close>

definition GetValue :: "'a::zero list \<Rightarrow> uint32_t \<Rightarrow> error + 'a" where
  "GetValue data idx =
     (if unat idx < length data then at data (unat idx) else Inr 0)"

definition AddValue :: "'a \<Rightarrow> 'a list \<Rightarrow> bool \<times> 'a list" where
  "AddValue v data = (True, data @ [v])"

subsubsection \<open>OpenGymTupleContainer\<close>

definition Tuple_Add :: "container \<Rightarrow> container list \<Rightarrow> bool \<times> container list" where
  "Tuple_Add space tuple = (True, tuple @ [space])"

definition Tuple_Get :: "container list \<Rightarrow> uint32_t \<Rightarrow> error + container option" where
  "Tuple_Get tuple idx =
     (if unat idx < length tuple
      then (case at tuple (unat idx) of Inl e \<Rightarrow> Inl e | Inr c \<Rightarrow> Inr (Some c))
      else Inr None)"

subsubsection \<open>OpenGymDictContainer\<close>

definition Dict_Add ::
  "string \<Rightarrow> container \<Rightarrow> (string \<times> container) list \<Rightarrow> bool \<times> (string \<times> container) list" where
  "Dict_Add key data dict = (True, map_insert key data dict)"

definition Dict_Get :: "(string \<times> container) list \<Rightarrow> string \<Rightarrow> container option" where
  "Dict_Get dict key = (case map_find key dict of Some c \<Rightarrow> Some c | None \<Rightarrow> None)"

subsubsection \<open>Encoding and decoding\<close>

text \<open>
  \<open>OpenGymBoxContainer<T>::GetDataContainerPbMsg\<close> writes the shape and \<open>m_dtype\<close>,
  then the data to the one field that the \<open>switch\<close> on \<open>m_dtype\<close> selects. At each of
  the four instantiations \<open>m_dtype\<close> is the dtype of \<open>T\<close>, so the branch taken is
  the one of \<open>T\<close> and the aborting \<open>default\<close> branch is not reached.
\<close>

definition Box_GetDataContainerPbMsg :: "uint32_t list \<Rightarrow> box_data \<Rightarrow> BoxDataContainer" where
  "Box_GetDataContainerPbMsg shp data =
     (let boxMsg = BoxDataContainer_empty\<lparr>shape := shp, dtype := m_dtype data\<rparr>
      in case data of
           Box_int32 d \<Rightarrow> boxMsg\<lparr>intData := d\<rparr>
         | Box_uint32 d \<Rightarrow> boxMsg\<lparr>uintData := d\<rparr>
         | Box_float d \<Rightarrow> boxMsg\<lparr>floatData := d\<rparr>
         | Box_double d \<Rightarrow> boxMsg\<lparr>doubleData := d\<rparr>)"

fun GetDataContainerPbMsg :: "container \<Rightarrow> DataContainer" where
  "GetDataContainerPbMsg (Discrete n v) = DataContainer [] (kDiscrete v)"
| "GetDataContainerPbMsg (Box shp d) = DataContainer [] (kBox (Box_GetDataContainerPbMsg shp d))"
| "GetDataContainerPbMsg (Tuple ts) = DataContainer [] (kTuple (map GetDataContainerPbMsg ts))"
| "GetDataContainerPbMsg (Dict m) =
     DataContainer [] (kDict (map (\<lambda>(nm, sub). set_name nm (GetDataContainerPbMsg sub)) m))"

text \<open>The results of a loop body that may abort: the first abort ends the loop.\<close>

fun sequence_sum :: "('e + 'a) list \<Rightarrow> 'e + 'a list" where
  "sequence_sum [] = Inr []"
| "sequence_sum (Inl e # _) = Inl e"
| "sequence_sum (Inr x # rs) =
     (case sequence_sum rs of Inl e \<Rightarrow> Inl e | Inr xs \<Rightarrow> Inr (x # xs))"

text \<open>
  The \<open>kBox\<close> case of the decoder. Each branch creates the Box with the default
  constructor, so with an empty \<open>m_shape\<close>, and sets the data from the field of its dtype.
\<close>

definition Box_CreateFromPbMsg :: "BoxDataContainer \<Rightarrow> error + container" where
  "Box_CreateFromPbMsg boxMsg =
     (case dtype boxMsg of
        Dtype_INT \<Rightarrow> Inr (Box [] (Box_int32 (intData boxMsg)))
      | Dtype_UINT \<Rightarrow> Inr (Box [] (Box_uint32 (uintData boxMsg)))
      | Dtype_FLOAT \<Rightarrow> Inr (Box [] (Box_float (floatData boxMsg)))
      | Dtype_DOUBLE \<Rightarrow> Inr (Box [] (Box_double (doubleData boxMsg)))
      | Dtype_UNRECOGNIZED \<Rightarrow> Inl (Abort ''Unsupported data type''))"

text \<open>
  \<open>CreateFromDataContainerPbMsg\<close>. The Tuple and Dict loops decode the elements in
  order and add each one to the new container with \<open>Add\<close>.
\<close>

fun CreateFromDataContainerPbMsg :: "DataContainer \<Rightarrow> error + container" where
  "CreateFromDataContainerPbMsg (DataContainer nm (kDiscrete v)) = Inr (Discrete 0 v)"
| "CreateFromDataContainerPbMsg (DataContainer nm (kBox boxMsg)) = Box_CreateFromPbMsg boxMsg"
| "CreateFromDataContainerPbMsg (DataContainer nm (kTuple elements)) =
     (case sequence_sum (map CreateFromDataContainerPbMsg elements) of
        Inl e \<Rightarrow> Inl e
      | Inr subs \<Rightarrow> Inr (Tuple (foldl (\<lambda>t sub. snd (Tuple_Add sub t)) [] subs)))"
| "CreateFromDataContainerPbMsg (DataContainer nm (kDict elements)) =
     (case sequence_sum (map CreateFromDataContainerPbMsg elements) of
        Inl e \<Rightarrow> Inl e
      | Inr subs \<Rightarrow>
          Inr (Dict (foldl (\<lambda>d (key, sub). snd (Dict_Add key sub d)) []
                       (zip (map name elements) subs))))"
| "CreateFromDataContainerPbMsg (DataContainer nm DATA_NOT_SET) =
     Inl (Abort ''Unsupported data container type'')"

subsubsection \<open>Print\<close>

text \<open>\<open>std::to_string\<close> on integers writes decimal digits, with a sign for negative
  values.\<close>

fun to_string_nat :: "nat \<Rightarrow> string" where
  "to_string_nat n =
     (if n < 10 then [char_of (48 + n)]
      else to_string_nat (n div 10) @ [char_of (48 + n mod 10)])"

definition to_string_uint32 :: "uint32_t \<Rightarrow> string" where
  "to_string_uint32 v = to_string_nat (unat v)"

definition to_string_int32 :: "int32_t \<Rightarrow> string" where
  "to_string_int32 v =
     (if sint v < 0 then ''-'' @ to_string_nat (nat (- sint v)) else to_string_nat (nat (sint v)))"

text \<open>The loops of the three \<open>Print\<close> functions write a comma and a space after
  every item but the last.\<close>

fun print_items :: "string list \<Rightarrow> string" where
  "print_items [] = []"
| "print_items (x # xs) = x @ (if xs \<noteq> [] then '', '' else []) @ print_items xs"

text \<open>
  \<open>std::to_string\<close> on \<open>float\<close> and \<open>double\<close> is the C library's \<open>%f\<close>; the two
  renderings are arguments of \<open>Print\<close>.
\<close>

fun Box_Print :: "(float32 \<Rightarrow> string) \<Rightarrow> (float64 \<Rightarrow> string) \<Rightarrow> box_data \<Rightarrow> string" where
  "Box_Print tsf tsd (Box_int32 d) = ''['' @ print_items (map to_string_int32 d) @ '']''"
| "Box_Print tsf tsd (Box_uint32 d) = ''['' @ print_items (map to_string_uint32 d) @ '']''"
| "Box_Print tsf tsd (Box_float d) = ''['' @ print_items (map tsf d) @ '']''"
| "Box_Print tsf tsd (Box_double d) = ''['' @ print_items (map tsd d) @ '']''"

fun Print :: "(float32 \<Rightarrow> string) \<Rightarrow> (float64 \<Rightarrow> string) \<Rightarrow> container \<Rightarrow> string" where
  "Print tsf tsd (Discrete n v) = to_string_uint32 v"
| "Print tsf tsd (Box shp d) = Box_Print tsf tsd d"
| "Print tsf tsd (Tuple ts) = ''Tuple('' @ print_items (map (Print tsf tsd) ts) @ '')''"
| "Print tsf tsd (Dict m) =
     ''Dict('' @ print_items (map (\<lambda>(nm, sub). nm @ ''='' @ Print tsf tsd sub) m) @ '')''"

text \<open>
  The list form the spec gives for a rendering, \<open>k=v, \<dots>\<close>: the items in order, with
  a comma and a space between two neighbours.
\<close>

fun comma_separated :: "string list \<Rightarrow> string" where
  "comma_separated [] = []"
| "comma_separated [x] = x"
| "comma_separated (x # y # ys) = x @ '', '' @ comma_separated (y # ys)"

subsubsection \<open>Well-formed containers and containers built by Add\<close>

text \<open>Every \<open>m_dict\<close> in the tree is what a \<open>std::map\<close> can hold.\<close>

fun map_ok :: "container \<Rightarrow> bool" where
  "map_ok (Discrete n v) = True"
| "map_ok (Box shp d) = True"
| "map_ok (Tuple ts) = list_all map_ok ts"
| "map_ok (Dict m) = (map_inv m \<and> list_all (\<lambda>(nm, sub). map_ok sub) m)"

text \<open>
  The container with what the wire does not carry back reset to what the default
  constructors set: \<open>m_n\<close> of a Discrete is 0 and \<open>m_shape\<close> of a Box is empty.
\<close>

fun as_decoded :: "container \<Rightarrow> container" where
  "as_decoded (Discrete n v) = Discrete 0 v"
| "as_decoded (Box shp d) = Box [] d"
| "as_decoded (Tuple ts) = Tuple (map as_decoded ts)"
| "as_decoded (Dict m) = Dict (map (\<lambda>(nm, sub). (nm, as_decoded sub)) m)"

text \<open>\<open>m_dict\<close> of a new Dict after the calls \<open>Add(key, sub)\<close> for the pairs of
  \<open>kvs\<close>, in this order.\<close>

definition Dict_of :: "(string \<times> container) list \<Rightarrow> (string \<times> container) list" where
  "Dict_of kvs = foldl (\<lambda>d (key, sub). snd (Dict_Add key sub d)) [] kvs"

section \<open>The Gym interface (model/ns3penv-gym-interface.cc)\<close>

subsection \<open>Messages of the handshake and of a step\<close>

text \<open>
  Modelled from the spec: the message classes of messages.pb.h, after section 6.
  \<open>SimInit {obsSpace?, actSpace?}\<close> is answered by \<open>SimInitAck {done, stopSimRequested}\<close>
  and \<open>EnvState {obsData?, reward, isGameOver, reason?, info}\<close> by
  \<open>EnvAct {actData, stopSimRequested}\<close>. The space description \<open>'sp\<close> comes from
  spaces.h and is left open. An \<open>actData\<close> that was never set reads as the default
  \<open>DataContainer\<close>, whose oneof is \<open>DATA_NOT_SET\<close>.
\<close>

record 'sp SimInitMsg =
  obsspace :: "'sp option"
  actspace :: "'sp option"

record SimInitAck =
  ack_done :: bool
  ack_stopsimreq :: bool

datatype Reason = SimulationEnd | GameOver

record EnvStateMsg =
  obsdata :: "DataContainer option"
  reward :: float32
  isgameover :: bool
  reason :: "Reason option"
  info :: string

record EnvActMsg =
  actdata :: DataContainer
  stopsimreq :: bool

text \<open>What the simulation writes to the cpp2py buffer.\<close>

datatype 'sp Cpp2PyMsg = SimInit "'sp SimInitMsg" | EnvState EnvStateMsg

text \<open>
  What the remote side wrote to the py2cpp buffer, seen through the parser that reads it:
  \<open>Init\<close> parses the buffer as a \<open>SimInitAck\<close>, \<open>NotifyCurrentState\<close> as an
  \<open>EnvActMsg\<close>.
\<close>

record Py2CppStruct =
  as_SimInitAck :: SimInitAck
  as_EnvActMsg :: EnvActMsg

subsection \<open>State\<close>

text \<open>
  What the outside sees of a run, in order: a message sent, a reply received, a call of
  the action executor, \<open>Simulator::Stop\<close> and \<open>Simulator::Destroy\<close>.
\<close>

datatype 'sp event =
    CppSend "'sp Cpp2PyMsg"
  | RecvSimInitAck SimInitAck
  | RecvEnvAct EnvActMsg
  | ActionCb container
  | Simulator_Stop
  | Simulator_Destroy

text \<open>
  The fields of \<open>OpenGymInterface\<close> together with what its methods act on: the state
  \<open>'s\<close> of the simulation that the callbacks read and change, the replies the remote side
  will write (\<open>py2cpp\<close>, the next one first) and the events so far (\<open>trace\<close>).
  A callback slot is \<open>None\<close> when \<open>IsNull()\<close> holds. A space callback returns a
  \<open>Ptr<OpenGymSpace>\<close>, here the description of the space or \<open>None\<close> for a null
  pointer; the observation callback returns a container or a null pointer.
\<close>

record ('s, 'sp) OpenGymInterface =
  m_simEnd :: bool
  m_stopEnvRequested :: bool
  m_initSimMsgSent :: bool
  m_actionSpaceCb :: "('s \<Rightarrow> 'sp option \<times> 's) option"
  m_observationSpaceCb :: "('s \<Rightarrow> 'sp option \<times> 's) option"
  m_gameOverCb :: "('s \<Rightarrow> bool \<times> 's) option"
  m_obsCb :: "('s \<Rightarrow> container option \<times> 's) option"
  m_rewardCb :: "('s \<Rightarrow> float32 \<times> 's) option"
  m_extraInfoCb :: "('s \<Rightarrow> string \<times> 's) option"
  m_actionCb :: "(container \<Rightarrow> 's \<Rightarrow> bool \<times> 's) option"
  sim :: 's
  py2cpp :: "Py2CppStruct list"
  trace :: "'sp event list"

text \<open>
  How a call ends: it returns, the process exits (\<open>std::exit(0)\<close>), the process aborts
  (\<open>NS_ABORT_MSG\<close> or a failed \<open>assert\<close>), or the call waits in \<open>CppRecvBegin\<close> for a
  reply that never comes.
\<close>

datatype outcome = Returned | Exited | Aborted error | Blocked

text \<open>The constructor: the three flags are false and no callback is set.\<close>

definition OpenGymInterface_new :: "'s \<Rightarrow> Py2CppStruct list \<Rightarrow> ('s, 'sp) OpenGymInterface" where
  "OpenGymInterface_new s replies =
     \<lparr>m_simEnd = False, m_stopEnvRequested = False, m_initSimMsgSent = False,
      m_actionSpaceCb = None, m_observationSpaceCb = None, m_gameOverCb = None,
      m_obsCb = None, m_rewardCb = None, m_extraInfoCb = None, m_actionCb = None,
      sim = s, py2cpp = replies, trace = []\<rparr>"

subsection \<open>The callback getters\<close>

text \<open>Each getter starts from a default and calls the callback when the slot is set.\<close>

definition call_cb ::
  "('s \<Rightarrow> 'r \<times> 's) option \<Rightarrow> 'r \<Rightarrow> ('s, 'sp) OpenGymInterface \<Rightarrow> 'r \<times> ('s, 'sp) OpenGymInterface" where
  "call_cb cb dflt st =
     (case cb of
        None \<Rightarrow> (dflt, st)
      | Some f \<Rightarrow> (let (r, s') = f (sim st) in (r, st\<lparr>sim := s'\<rparr>)))"

definition GetActionSpace ::
  "('s, 'sp) OpenGymInterface \<Rightarrow> 'sp option \<times> ('s, 'sp) OpenGymInterface" where
  "GetActionSpace st = call_cb (m_actionSpaceCb st) None st"

definition GetObservationSpace ::
  "('s, 'sp) OpenGymInterface \<Rightarrow> 'sp option \<times> ('s, 'sp) OpenGymInterface" where
  "GetObservationSpace st = call_cb (m_observationSpaceCb st) None st"

definition GetObservation ::
  "('s, 'sp) OpenGymInterface \<Rightarrow> container option \<times> ('s, 'sp) OpenGymInterface" where
  "GetObservation st = call_cb (m_obsCb st) None st"

definition GetReward :: "('s, 'sp) OpenGymInterface \<Rightarrow> float32 \<times> ('s, 'sp) OpenGymInterface" where
  "GetReward st = call_cb (m_rewardCb st) 0 st"

definition IsGameOver :: "('s, 'sp) OpenGymInterface \<Rightarrow> bool \<times> ('s, 'sp) OpenGymInterface" where
  "IsGameOver st =
     (let (gameOver, st') = call_cb (m_gameOverCb st) False st
      in (gameOver \<or> m_simEnd st', st'))"

definition GetExtraInfo :: "('s, 'sp) OpenGymInterface \<Rightarrow> string \<times> ('s, 'sp) OpenGymInterface" where
  "GetExtraInfo st = call_cb (m_extraInfoCb st) [] st"

definition ExecuteActions ::
  "container \<Rightarrow> ('s, 'sp) OpenGymInterface \<Rightarrow> bool \<times> ('s, 'sp) OpenGymInterface" where
  "ExecuteActions action st =
     (case m_actionCb st of
        None \<Rightarrow> (False, st)
      | Some f \<Rightarrow>
          (let (reply, s') = f action (sim st)
           in (reply, st\<lparr>sim := s', trace := trace st @ [ActionCb action]\<rparr>)))"

subsection \<open>Init and NotifyCurrentState\<close>

text \<open>
  \<open>fits msg\<close> is the assertion \<open>ByteSizeLong() <= MSG_BUFFER_SIZE\<close> on an outgoing
  message; the size function is generated code and the constant is defined in
  ns3penv-gym-msg.h, so the test is an argument. The send half of an exchange completes;
  the receive half waits for the next reply of the remote side.
\<close>

definition assert_failed :: error where
  "assert_failed = Abort ''assert(msgInterface->GetCpp2PyStruct()->size <= MSG_BUFFER_SIZE)''"

definition Init ::
  "('sp Cpp2PyMsg \<Rightarrow> bool) \<Rightarrow> ('s, 'sp) OpenGymInterface \<Rightarrow> outcome \<times> ('s, 'sp) OpenGymInterface" where
  "Init fits st =
     (if m_initSimMsgSent st then (Returned, st)
      else
        let st1 = st\<lparr>m_initSimMsgSent := True\<rparr>;
            (obsSpace, st2) = GetObservationSpace st1;
            (actionSpace, st3) = GetActionSpace st2;
            simInitMsg = \<lparr>obsspace = obsSpace, actspace = actionSpace\<rparr>
        in if \<not> fits (SimInit simInitMsg) then (Aborted assert_failed, st3)
           else
             let st4 = st3\<lparr>trace := trace st3 @ [CppSend (SimInit simInitMsg)]\<rparr>
             in case py2cpp st4 of
                  [] \<Rightarrow> (Blocked, st4)
                | buf # rest \<Rightarrow>
                    let simInitAck = as_SimInitAck buf;
                        st5 = st4\<lparr>py2cpp := rest, trace := trace st4 @ [RecvSimInitAck simInitAck]\<rparr>;
                        stopSim = ack_stopsimreq simInitAck
                    in if stopSim
                       then (Exited, st5\<lparr>m_stopEnvRequested := True,
                                         trace := trace st5 @ [Simulator_Stop, Simulator_Destroy]\<rparr>)
                       else (Returned, st5))"

text \<open>The \<open>EnvStateMsg\<close> that \<open>NotifyCurrentState\<close> builds from what it collected.\<close>

definition make_envStateMsg ::
  "bool \<Rightarrow> container option \<Rightarrow> float32 \<Rightarrow> bool \<Rightarrow> string \<Rightarrow> EnvStateMsg" where
  "make_envStateMsg simEnd obsDataContainer rew isGameOver extraInfo =
     \<lparr>obsdata = (case obsDataContainer of
                   None \<Rightarrow> None
                 | Some c \<Rightarrow> Some (GetDataContainerPbMsg c)),
      reward = rew,
      isgameover = isGameOver,
      reason = (if isGameOver then (if simEnd then Some SimulationEnd else Some GameOver)
                else None),
      info = extraInfo\<rparr>"

text \<open>
  The part of \<open>NotifyCurrentState\<close> after the two guards at its head, in two steps:
  collecting the current state of the environment into the message, then the exchange.
\<close>

definition collect_env_state ::
  "('s, 'sp) OpenGymInterface \<Rightarrow> EnvStateMsg \<times> ('s, 'sp) OpenGymInterface" where
  "collect_env_state st =
     (let (obsDataContainer, st1) = GetObservation st;
          (rew, st2) = GetReward st1;
          (isGameOver, st3) = IsGameOver st2;
          (extraInfo, st4) = GetExtraInfo st3
      in (make_envStateMsg (m_simEnd st4) obsDataContainer rew isGameOver extraInfo, st4))"

definition exchange_state ::
  "('sp Cpp2PyMsg \<Rightarrow> bool) \<Rightarrow> ('s, 'sp) OpenGymInterface \<Rightarrow> outcome \<times> ('s, 'sp) OpenGymInterface" where
  "exchange_state fits st =
     (let (envStateMsg, st4) = collect_env_state st
      in if \<not> fits (EnvState envStateMsg) then (Aborted assert_failed, st4)
         else
           let st5 = st4\<lparr>trace := trace st4 @ [CppSend (EnvState envStateMsg)]\<rparr>
           in case py2cpp st5 of
                [] \<Rightarrow> (Blocked, st5)
              | buf # rest \<Rightarrow>
                  let envActMsg = as_EnvActMsg buf;
                      st6 = st5\<lparr>py2cpp := rest, trace := trace st5 @ [RecvEnvAct envActMsg]\<rparr>
                  in if m_simEnd st6 then (Returned, st6)
                     else if stopsimreq envActMsg
                     then (Exited, st6\<lparr>m_stopEnvRequested := True,
                                       trace := trace st6 @ [Simulator_Stop, Simulator_Destroy]\<rparr>)
                     else (case CreateFromDataContainerPbMsg (actdata envActMsg) of
                             Inl e \<Rightarrow> (Aborted e, st6)
                           | Inr actDataContainer \<Rightarrow>
                               (Returned, snd (ExecuteActions actDataContainer st6))))"

definition NotifyCurrentState ::
  "('sp Cpp2PyMsg \<Rightarrow> bool) \<Rightarrow> ('s, 'sp) OpenGymInterface \<Rightarrow> outcome \<times> ('s, 'sp) OpenGymInterface" where
  "NotifyCurrentState fits st =
     (let (r, st0) = (if \<not> m_initSimMsgSent st then Init fits st else (Returned, st))
      in if r \<noteq> Returned then (r, st0)
         else if m_stopEnvRequested st0 then (Returned, st0)
         else exchange_state fits st0)"

definition WaitForStop ::
  "('sp Cpp2PyMsg \<Rightarrow> bool) \<Rightarrow> ('s, 'sp) OpenGymInterface \<Rightarrow> outcome \<times> ('s, 'sp) OpenGymInterface" where
  "WaitForStop fits st = NotifyCurrentState fits st"

definition NotifySimulationEnd ::
  "('sp Cpp2PyMsg \<Rightarrow> bool) \<Rightarrow> ('s, 'sp) OpenGymInterface \<Rightarrow> outcome \<times> ('s, 'sp) OpenGymInterface" where
  "NotifySimulationEnd fits st =
     (let st1 = st\<lparr>m_simEnd := True\<rparr>
      in if m_initSimMsgSent st1 then WaitForStop fits st1 else (Returned, st1))"

text \<open>
  \<open>Notify(entity)\<close> binds five callbacks to the methods of the environment and notifies
  the current state. The environment is the record of the five methods.
\<close>

record 's OpenGymEnv =
  env_GetGameOver :: "'s \<Rightarrow> bool \<times> 's"
  env_GetObservation :: "'s \<Rightarrow> container option \<times> 's"
  env_GetReward :: "'s \<Rightarrow> float32 \<times> 's"
  env_GetExtraInfo :: "'s \<Rightarrow> string \<times> 's"
  env_ExecuteActions :: "container \<Rightarrow> 's \<Rightarrow> bool \<times> 's"

definition Notify ::
  "('sp Cpp2PyMsg \<Rightarrow> bool) \<Rightarrow> 's OpenGymEnv \<Rightarrow> ('s, 'sp) OpenGymInterface
     \<Rightarrow> outcome \<times> ('s, 'sp) OpenGymInterface" where
  "Notify fits entity st =
     NotifyCurrentState fits
       (st\<lparr>m_gameOverCb := Some (env_GetGameOver entity),
           m_obsCb := Some (env_GetObservation entity),
           m_rewardCb := Some (env_GetReward entity),
           m_extraInfoCb := Some (env_GetExtraInfo entity),
           m_actionCb := Some (env_ExecuteActions entity)\<rparr>)"

subsection \<open>Executions\<close>

text \<open>
  A call of a public method of the interface, or a step the simulation takes on its own
  between two calls. A setter stores a callback, which may be a null one.
\<close>

datatype ('s, 'sp) call =
    Call_Init
  | Call_NotifyCurrentState
  | Call_WaitForStop
  | Call_NotifySimulationEnd
  | Call_Notify "'s OpenGymEnv"
  | Call_SetGetActionSpaceCb "('s \<Rightarrow> 'sp option \<times> 's) option"
  | Call_SetGetObservationSpaceCb "('s \<Rightarrow> 'sp option \<times> 's) option"
  | Call_SetGetGameOverCb "('s \<Rightarrow> bool \<times> 's) option"
  | Call_SetGetObservationCb "('s \<Rightarrow> container option \<times> 's) option"
  | Call_SetGetRewardCb "('s \<Rightarrow> float32 \<times> 's) option"
  | Call_SetGetExtraInfoCb "('s \<Rightarrow> string \<times> 's) option"
  | Call_SetExecuteActionsCb "(container \<Rightarrow> 's \<Rightarrow> bool \<times> 's) option"
  | Simulation_step "'s \<Rightarrow> 's"

fun do_call ::
  "('sp Cpp2PyMsg \<Rightarrow> bool) \<Rightarrow> ('s, 'sp) call \<Rightarrow> ('s, 'sp) OpenGymInterface
     \<Rightarrow> outcome \<times> ('s, 'sp) OpenGymInterface" where
  "do_call fits Call_Init st = Init fits st"
| "do_call fits Call_NotifyCurrentState st = NotifyCurrentState fits st"
| "do_call fits Call_WaitForStop st = WaitForStop fits st"
| "do_call fits Call_NotifySimulationEnd st = NotifySimulationEnd fits st"
| "do_call fits (Call_Notify entity) st = Notify fits entity st"
| "do_call fits (Call_SetGetActionSpaceCb cb) st = (Returned, st\<lparr>m_actionSpaceCb := cb\<rparr>)"
| "do_call fits (Call_SetGetObservationSpaceCb cb) st =
     (Returned, st\<lparr>m_observationSpaceCb := cb\<rparr>)"
| "do_call fits (Call_SetGetGameOverCb cb) st = (Returned, st\<lparr>m_gameOverCb := cb\<rparr>)"
| "do_call fits (Call_SetGetObservationCb cb) st = (Returned, st\<lparr>m_obsCb := cb\<rparr>)"
| "do_call fits (Call_SetGetRewardCb cb) st = (Returned, st\<lparr>m_rewardCb := cb\<rparr>)"
| "do_call fits (Call_SetGetExtraInfoCb cb) st = (Returned, st\<lparr>m_extraInfoCb := cb\<rparr>)"
| "do_call fits (Call_SetExecuteActionsCb cb) st = (Returned, st\<lparr>m_actionCb := cb\<rparr>)"
| "do_call fits (Simulation_step f) st = (Returned, st\<lparr>sim := f (sim st)\<rparr>)"

text \<open>A sequence of calls; nothing runs after a call that did not return.\<close>

fun run ::
  "('sp Cpp2PyMsg \<Rightarrow> bool) \<Rightarrow> ('s, 'sp) call list \<Rightarrow> ('s, 'sp) OpenGymInterface
     \<Rightarrow> outcome \<times> ('s, 'sp) OpenGymInterface" where
  "run fits [] st = (Returned, st)"
| "run fits (c # cs) st =
     (case do_call fits c st of
        (Returned, st') \<Rightarrow> run fits cs st'
      | (r, st') \<Rightarrow> (r, st'))"

subsection \<open>Reading a trace\<close>

text \<open>The events a call added to the trace.\<close>

definition new_events ::
  "('s, 'sp) OpenGymInterface \<Rightarrow> ('s, 'sp) OpenGymInterface \<Rightarrow> 'sp event list" where
  "new_events st st' = drop (length (trace st)) (trace st')"

text \<open>A reply received with \<open>stopSimRequested\<close> set.\<close>

fun is_stop_reply :: "'sp event \<Rightarrow> bool" where
  "is_stop_reply (RecvSimInitAck a) = ack_stopsimreq a"
| "is_stop_reply (RecvEnvAct m) = stopsimreq m"
| "is_stop_reply _ = False"

fun is_ActionCb :: "'sp event \<Rightarrow> bool" where
  "is_ActionCb (ActionCb c) = True"
| "is_ActionCb _ = False"

fun is_SimInit_send :: "'sp event \<Rightarrow> bool" where
  "is_SimInit_send (CppSend (SimInit m)) = True"
| "is_SimInit_send _ = False"

fun is_RecvEnvAct :: "'sp event \<Rightarrow> bool" where
  "is_RecvEnvAct (RecvEnvAct m) = True"
| "is_RecvEnvAct _ = False"

text \<open>
  The trace begins with the handshake: it is empty, or it is the \<open>SimInit\<close> message
  alone, or it starts with the \<open>SimInit\<close> message and the \<open>SimInitAck\<close> reply.
\<close>

fun handshake_first :: "'sp event list \<Rightarrow> bool" where
  "handshake_first [] = True"
| "handshake_first [CppSend (SimInit m)] = True"
| "handshake_first (CppSend (SimInit m) # RecvSimInitAck a # rest) = True"
| "handshake_first _ = False"

text \<open>The trace starts with the complete handshake.\<close>

fun handshake_done :: "'sp event list \<Rightarrow> bool" where
  "handshake_done (CppSend (SimInit m) # RecvSimInitAck a # rest) = True"
| "handshake_done _ = False"

text \<open>
  Before \<open>Init\<close> has run nothing has been exchanged; once \<open>m_initSimMsgSent\<close> is set
  the trace starts with the handshake.
\<close>

definition handshake_inv :: "('s, 'sp) OpenGymInterface \<Rightarrow> bool" where
  "handshake_inv st = (if m_initSimMsgSent st then handshake_done (trace st) else trace st = [])"

text \<open>
  What every call, and so every sequence of calls, keeps: the trace only grows; once
  \<open>m_simEnd\<close> is set it stays set and the action executor is not called; once
  \<open>m_initSimMsgSent\<close> is set it stays set and no \<open>SimInit\<close> is sent; and the trace
  begins with the handshake.
\<close>

definition call_inv ::
  "('s, 'sp) OpenGymInterface \<Rightarrow> outcome \<Rightarrow> ('s, 'sp) OpenGymInterface \<Rightarrow> bool" where
  "call_inv st r st' \<longleftrightarrow>
     trace st' = trace st @ new_events st st' \<and>
     (m_simEnd st \<longrightarrow> m_simEnd st' \<and> \<not> list_ex is_ActionCb (new_events st st')) \<and>
     (m_initSimMsgSent st \<longrightarrow> m_initSimMsgSent st' \<and> \<not> list_ex is_SimInit_send (new_events st st')) \<and>
     (handshake_inv st \<longrightarrow> handshake_first (trace st') \<and> (r = Returned \<longrightarrow> handshake_inv st'))"

text \<open>A callback changes the simulation and nothing else.\<close>

definition only_sim :: "('s, 'sp) OpenGymInterface \<Rightarrow> ('s, 'sp) OpenGymInterface \<Rightarrow> bool" where
  "only_sim st st' = (\<exists>s. st' = st\<lparr>sim := s\<rparr>)"

section \<open>Properties of the containers\<close>

lemma SetDtype_signed:
  "nm \<in> {''int8_t'', ''int16_t'', ''int32_t'', ''int64_t''} \<Longrightarrow> SetDtype nm = Inr Dtype_INT"
  by (auto simp: SetDtype_def)

lemma SetDtype_unsigned:
  "nm \<in> {''uint8_t'', ''uint16_t'', ''uint32_t'', ''uint64_t''} \<Longrightarrow> SetDtype nm = Inr Dtype_UINT"
  by (auto simp: SetDtype_def)

lemma SetDtype_other:
  "nm \<notin> {''int8_t'', ''int16_t'', ''int32_t'', ''int64_t'',
          ''uint8_t'', ''uint16_t'', ''uint32_t'', ''uint64_t'', ''float'', ''double''}
   \<Longrightarrow> SetDtype nm = Inl (Abort (''Unsupported data type: '' @ nm))"
  by (simp add: SetDtype_def)

lemma m_dtype_SetDtype: "SetDtype (TypeNameGet d) = Inr (m_dtype d)"
  by (cases d) (simp_all add: SetDtype_def)

text \<open>
  C3. Constructing a Box at a signed integer type gives dtype \<open>INT\<close>, at an unsigned
  integer type \<open>UINT\<close>, at \<open>float\<close> \<open>FLOAT\<close> and at \<open>double\<close> \<open>DOUBLE\<close>, the
  shape being stored as given; at any other element type the constructor aborts.
\<close>

theorem Box_constructor_dtype:
  "(nm \<in> {''int8_t'', ''int16_t'', ''int32_t'', ''int64_t''}
      \<longrightarrow> OpenGymBoxContainer nm shp = Inr (shp, Dtype_INT)) \<and>
   (nm \<in> {''uint8_t'', ''uint16_t'', ''uint32_t'', ''uint64_t''}
      \<longrightarrow> OpenGymBoxContainer nm shp = Inr (shp, Dtype_UINT)) \<and>
   (nm = ''float'' \<longrightarrow> OpenGymBoxContainer nm shp = Inr (shp, Dtype_FLOAT)) \<and>
   (nm = ''double'' \<longrightarrow> OpenGymBoxContainer nm shp = Inr (shp, Dtype_DOUBLE)) \<and>
   (nm \<notin> {''int8_t'', ''int16_t'', ''int32_t'', ''int64_t'',
           ''uint8_t'', ''uint16_t'', ''uint32_t'', ''uint64_t'', ''float'', ''double''}
      \<longrightarrow> OpenGymBoxContainer nm shp = Inl (Abort (''Unsupported data type: '' @ nm)))"
proof (intro conjI impI)
  assume "nm \<in> {''int8_t'', ''int16_t'', ''int32_t'', ''int64_t''}"
  then show "OpenGymBoxContainer nm shp = Inr (shp, Dtype_INT)"
    by (simp add: OpenGymBoxContainer_def SetDtype_signed)
next
  assume "nm \<in> {''uint8_t'', ''uint16_t'', ''uint32_t'', ''uint64_t''}"
  then show "OpenGymBoxContainer nm shp = Inr (shp, Dtype_UINT)"
    by (simp add: OpenGymBoxContainer_def SetDtype_unsigned)
next
  assume "nm = ''float''"
  then show "OpenGymBoxContainer nm shp = Inr (shp, Dtype_FLOAT)"
    by (simp add: OpenGymBoxContainer_def SetDtype_def)
next
  assume "nm = ''double''"
  then show "OpenGymBoxContainer nm shp = Inr (shp, Dtype_DOUBLE)"
    by (simp add: OpenGymBoxContainer_def SetDtype_def)
next
  assume "nm \<notin> {''int8_t'', ''int16_t'', ''int32_t'', ''int64_t'',
           ''uint8_t'', ''uint16_t'', ''uint32_t'', ''uint64_t'', ''float'', ''double''}"
  then show "OpenGymBoxContainer nm shp = Inl (Abort (''Unsupported data type: '' @ nm))"
    by (simp add: OpenGymBoxContainer_def SetDtype_other)
qed

lemma map_insert_present:
  "map_inv m \<Longrightarrow> k \<in> fst ` set m \<Longrightarrow> map_insert k v m = m"
proof (induction m)
  case Nil
  then show ?case by simp
next
  case (Cons e m)
  obtain k' v' where e: "e = (k', v')" by (cases e)
  from Cons.prems(1) have inv: "map_inv m" and lt: "\<forall>x \<in> fst ` set m. k' < x"
    by (auto simp: map_inv_def e)
  show ?case
  proof (cases "k = k'")
    case True
    then show ?thesis by (simp add: e)
  next
    case False
    with Cons.prems(2) have mem: "k \<in> fst ` set m" by (auto simp: e)
    with lt have "k' < k" by blast
    with Cons.IH [OF inv mem] show ?thesis by (simp add: e)
  qed
qed

lemma map_find_present:
  "map_inv m \<Longrightarrow> (k, v) \<in> set m \<Longrightarrow> map_find k m = Some v"
proof (induction m)
  case Nil
  then show ?case by simp
next
  case (Cons e m)
  obtain k' v' where e: "e = (k', v')" by (cases e)
  from Cons.prems(1) have inv: "map_inv m" and lt: "\<forall>x \<in> fst ` set m. k' < x"
    by (auto simp: map_inv_def e)
  show ?case
  proof (cases "(k, v) = e")
    case True
    then show ?thesis by (auto simp: e)
  next
    case False
    with Cons.prems(2) have mem: "(k, v) \<in> set m" by auto
    then have "k \<in> fst ` set m" by force
    with lt have "k' < k" by blast
    then have "k \<noteq> k'" by simp
    with Cons.IH [OF inv mem] show ?thesis by (simp add: e)
  qed
qed

lemma map_find_absent: "k \<notin> fst ` set m \<Longrightarrow> map_find k m = None"
  by (induction m) auto

lemma set_map_insert: "set (map_insert k v m) \<subseteq> insert (k, v) (set m)"
  by (induction m) (auto split: if_splits)

lemma map_inv_insert: "map_inv m \<Longrightarrow> map_inv (map_insert k v m)"
proof (induction m)
  case Nil
  then show ?case by (simp add: map_inv_def)
next
  case (Cons e m)
  obtain k' v' where e: "e = (k', v')" by (cases e)
  from Cons.prems have inv: "map_inv m" and lt: "\<forall>x \<in> fst ` set m. k' < x"
    by (auto simp: map_inv_def e)
  have keys: "fst ` set (map_insert k v m) \<subseteq> insert k (fst ` set m)"
    using set_map_insert [of k v m] by force
  show ?case
  proof (cases "k < k'")
    case True
    with Cons.prems show ?thesis by (auto simp: map_inv_def e)
  next
    case nlt: False
    show ?thesis
    proof (cases "k' < k")
      case True
      from Cons.IH [OF inv] have "map_inv (map_insert k v m)" .
      moreover have "\<forall>x \<in> fst ` set (map_insert k v m). k' < x"
      proof
        fix x assume "x \<in> fst ` set (map_insert k v m)"
        with keys have "x = k \<or> x \<in> fst ` set m" by blast
        with lt True show "k' < x" by blast
      qed
      ultimately show ?thesis using True nlt by (auto simp: map_inv_def e)
    next
      case False
      with nlt Cons.prems show ?thesis by (simp add: e)
    qed
  qed
qed

text \<open>
  C2. Reading a Box at an index not below the length of its data gives the zero of the
  element type, reading a Tuple at an index not below its length gives a null container,
  and reading a Dict at a key it does not hold gives a null container; no read of a Box
  or a Tuple raises, whatever the index.
\<close>

theorem absent_reads:
  "(length data \<le> unat idx \<longrightarrow> GetValue data idx = Inr 0) \<and>
   (length tuple \<le> unat idx \<longrightarrow> Tuple_Get tuple idx = Inr None) \<and>
   (key \<notin> fst ` set dict \<longrightarrow> Dict_Get dict key = None) \<and>
   (\<exists>v. GetValue data idx = Inr v) \<and>
   (\<exists>c. Tuple_Get tuple idx = Inr c)"
  by (simp add: GetValue_def Tuple_Get_def Dict_Get_def at_def map_find_absent)

theorem absent_reads_witness:
  "GetValue [7, 8 :: uint32_t] 2 = Inr 0 \<and>
   Tuple_Get [Discrete 0 1, Discrete 0 2] 2 = Inr None \<and>
   Dict_Get [(''a'', Discrete 0 1)] ''b'' = None"
  using absent_reads [of "[7, 8 :: uint32_t]" 2 "[Discrete 0 1, Discrete 0 2]" "''b''" "[(''a'', Discrete 0 1)]"]
  by simp

text \<open>
  C8. Adding a value to a Dict under a key that is already present returns true and
  changes nothing: the value stored before stays bound to the key.
\<close>

theorem Dict_Add_existing_key:
  "map_inv dict \<Longrightarrow> (key, old) \<in> set dict \<Longrightarrow>
     Dict_Add key new dict = (True, dict) \<and>
     Dict_Get (snd (Dict_Add key new dict)) key = Some old"
proof -
  assume inv: "map_inv dict" and mem: "(key, old) \<in> set dict"
  from mem have "key \<in> fst ` set dict" by force
  with inv have "map_insert key new dict = dict" by (rule map_insert_present)
  moreover from inv mem have "map_find key dict = Some old" by (rule map_find_present)
  ultimately show ?thesis by (simp add: Dict_Add_def Dict_Get_def)
qed

theorem Dict_Add_existing_key_witness:
  "Dict_Add ''a'' (Discrete 0 9) [(''a'', Discrete 0 1), (''b'', Discrete 0 2)]
     = (True, [(''a'', Discrete 0 1), (''b'', Discrete 0 2)]) \<and>
   Dict_Get (snd (Dict_Add ''a'' (Discrete 0 9) [(''a'', Discrete 0 1), (''b'', Discrete 0 2)])) ''a''
     = Some (Discrete 0 1)"
proof -
  have inv: "map_inv [(''a'', Discrete 0 1), (''b'', Discrete 0 2)]"
    by (simp add: map_inv_def)
  have mem: "(''a'', Discrete 0 1) \<in> set [(''a'', Discrete 0 1), (''b'', Discrete 0 2)]"
    by simp
  show ?thesis using Dict_Add_existing_key [OF inv mem, of "Discrete 0 9"] .
qed

theorem Box_constructor_dtype_witness:
  "OpenGymBoxContainer ''int32_t'' [2] = Inr ([2], Dtype_INT) \<and>
   OpenGymBoxContainer ''uint32_t'' [2] = Inr ([2], Dtype_UINT) \<and>
   OpenGymBoxContainer ''float'' [2] = Inr ([2], Dtype_FLOAT) \<and>
   OpenGymBoxContainer ''double'' [2] = Inr ([2], Dtype_DOUBLE) \<and>
   OpenGymBoxContainer ''bool'' [2] = Inl (Abort ''Unsupported data type: bool'')"
  using Box_constructor_dtype [of "''int32_t''" "[2]"] Box_constructor_dtype [of "''uint32_t''" "[2]"]
    Box_constructor_dtype [of "''float''" "[2]"] Box_constructor_dtype [of "''double''" "[2]"]
    Box_constructor_dtype [of "''bool''" "[2]"]
  by simp

lemma sequence_sum_map:
  "(\<And>x. x \<in> set xs \<Longrightarrow> f x = Inr (g x)) \<Longrightarrow> sequence_sum (map f xs) = Inr (map g xs)"
  by (induction xs) simp_all

lemma foldl_Tuple_Add: "foldl (\<lambda>t sub. snd (Tuple_Add sub t)) acc subs = acc @ subs"
  by (induction subs arbitrary: acc) (simp_all add: Tuple_Add_def)

lemma map_insert_last:
  "\<forall>x \<in> fst ` set m. x < k \<Longrightarrow> map_insert k v m = m @ [(k, v)]"
  by (induction m) auto

lemma foldl_Dict_Add:
  "map_inv (acc @ m) \<Longrightarrow> foldl (\<lambda>d (key, sub). snd (Dict_Add key sub d)) acc m = acc @ m"
proof (induction m arbitrary: acc)
  case Nil
  then show ?case by simp
next
  case (Cons e m)
  obtain k v where e: "e = (k, v)" by (cases e)
  from Cons.prems have "\<forall>x \<in> fst ` set acc. x < k"
    by (auto simp: map_inv_def e sorted_wrt_append)
  then have ins: "map_insert k v acc = acc @ [(k, v)]" by (rule map_insert_last)
  from Cons.prems have "map_inv ((acc @ [(k, v)]) @ m)" by (simp add: e)
  from Cons.IH [OF this] show ?case by (simp add: e Dict_Add_def ins)
qed

lemma Create_set_name:
  "CreateFromDataContainerPbMsg (set_name nm msg) = CreateFromDataContainerPbMsg msg"
proof (cases msg)
  case (DataContainer nm' d)
  then show ?thesis by (cases d) (simp_all add: set_name_def)
qed

lemma Box_roundtrip:
  "Box_CreateFromPbMsg (Box_GetDataContainerPbMsg shp d) = Inr (Box [] d)"
  by (cases d)
    (simp_all add: Box_CreateFromPbMsg_def Box_GetDataContainerPbMsg_def BoxDataContainer_empty_def)

lemma map_inv_map_snd:
  "map_inv (map (\<lambda>(nm, sub). (nm, f sub)) m) = map_inv m"
  by (simp add: map_inv_def comp_def case_prod_unfold)

text \<open>
  C1, as the code has it. Decoding the message that encodes a container gives a container
  of the same variant: a Discrete with the same value, a Box with the same dtype and the
  same data, a Tuple with the same elements in the same order, a Dict with the same keys
  and values, at any depth. The shape of a Box does not come back: the decoded Box has
  an empty shape (and a decoded Discrete has bound 0).
\<close>

theorem roundtrip_up_to_shape:
  "map_ok c \<Longrightarrow> CreateFromDataContainerPbMsg (GetDataContainerPbMsg c) = Inr (as_decoded c)"
proof (induction c)
  case (Discrete n v)
  show ?case by simp
next
  case (Box shp d)
  show ?case by (simp add: Box_roundtrip)
next
  case (Tuple ts)
  have "sequence_sum (map CreateFromDataContainerPbMsg (map GetDataContainerPbMsg ts))
          = Inr (map as_decoded ts)"
    unfolding map_map
  proof (rule sequence_sum_map)
    fix x assume "x \<in> set ts"
    with Tuple show "(CreateFromDataContainerPbMsg \<circ> GetDataContainerPbMsg) x = Inr (as_decoded x)"
      by (simp add: list_all_iff)
  qed
  then show ?case by (simp add: foldl_Tuple_Add)
next
  case (Dict m)
  let ?enc = "map (\<lambda>(nm, sub). set_name nm (GetDataContainerPbMsg sub)) m"
  have subs: "sequence_sum (map CreateFromDataContainerPbMsg ?enc)
          = Inr (map (\<lambda>e. as_decoded (snd e)) m)"
    unfolding map_map
  proof (rule sequence_sum_map)
    fix e assume mem: "e \<in> set m"
    obtain k s where e: "e = (k, s)" by (cases e)
    from mem e have "s \<in> Basic_BNFs.snds e" by simp
    moreover from Dict.prems mem e have "map_ok s" by (auto simp: list_all_iff)
    ultimately have "CreateFromDataContainerPbMsg (GetDataContainerPbMsg s) = Inr (as_decoded s)"
      using Dict.IH mem by blast
    then show "(CreateFromDataContainerPbMsg \<circ> (\<lambda>(nm, sub). set_name nm (GetDataContainerPbMsg sub))) e
                 = Inr (as_decoded (snd e))"
      by (simp add: e Create_set_name)
  qed
  have names: "map name ?enc = map fst m"
    by (simp add: set_name_def case_prod_unfold)
  have zip: "zip (map fst m) (map (\<lambda>e. as_decoded (snd e)) m) = map (\<lambda>(nm, sub). (nm, as_decoded sub)) m"
    by (induction m) auto
  from Dict.prems have "map_inv ([] @ map (\<lambda>(nm, sub). (nm, as_decoded sub)) m)"
    by (simp add: map_inv_map_snd)
  from foldl_Dict_Add [OF this] show ?case
    by (simp add: subs names zip del: map_map)
qed

text \<open>
  The round trip as an equality fails on a Box with a shape: the \<open>float\<close> Box of shape
  \<open>[2]\<close> holding 1.5 and -2.0 comes back with an empty shape.
\<close>

theorem roundtrip_shape_counterexample:
  "CreateFromDataContainerPbMsg (GetDataContainerPbMsg (Box [2] (Box_float [1069547520, 3221225472])))
     \<noteq> Inr (Box [2] (Box_float [1069547520, 3221225472]))"
  by (simp add: Box_CreateFromPbMsg_def Box_GetDataContainerPbMsg_def BoxDataContainer_empty_def)

theorem roundtrip_up_to_shape_witness:
  "CreateFromDataContainerPbMsg
     (GetDataContainerPbMsg
        (Dict [(''n'', Discrete 5 3), (''pos'', Box [2] (Box_float [1069547520, 3221225472]))]))
   = Inr (Dict [(''n'', Discrete 0 3), (''pos'', Box [] (Box_float [1069547520, 3221225472]))])"
proof -
  have ok: "map_ok (Dict [(''n'', Discrete 5 3), (''pos'', Box [2] (Box_float [1069547520, 3221225472]))])"
    by (simp add: map_inv_def)
  show ?thesis using roundtrip_up_to_shape [OF ok] by simp
qed

lemma map_find_map_of: "map_find k m = map_of m k"
  by (induction m) auto

lemma Dict_Get_map_find: "Dict_Get dict key = map_find key dict"
  by (cases "map_find key dict") (simp_all add: Dict_Get_def)

lemma map_inv_foldl_Dict_Add:
  "map_inv acc \<Longrightarrow> map_inv (foldl (\<lambda>d (key, sub). snd (Dict_Add key sub d)) acc kvs)"
proof (induction kvs arbitrary: acc)
  case Nil
  then show ?case by simp
next
  case (Cons e kvs)
  obtain k v where e: "e = (k, v)" by (cases e)
  from Cons.prems have "map_inv (map_insert k v acc)" by (rule map_inv_insert)
  from Cons.IH [OF this] show ?case by (simp add: e Dict_Add_def)
qed

lemma map_inv_Dict_of: "map_inv (Dict_of kvs)"
  unfolding Dict_of_def by (rule map_inv_foldl_Dict_Add) (simp add: map_inv_def)

lemma map_inv_unique:
  assumes "map_inv m" and "map_inv m'" and same: "\<And>k. map_find k m = map_find k m'"
  shows "m = m'"
proof -
  from assms(1) have m: "sorted (map fst m)" "distinct (map fst m)"
    by (simp_all add: map_inv_def strict_sorted_iff)
  from assms(2) have m': "sorted (map fst m')" "distinct (map fst m')"
    by (simp_all add: map_inv_def strict_sorted_iff)
  from same have "map_of m = map_of m'" by (simp add: map_find_map_of fun_eq_iff)
  with m(2) m'(2) have sets: "set m = set m'" by (simp add: map_of_inject_set)
  have "inj_on fst (set m \<union> set m')"
    using m(2) sets by (simp add: distinct_map)
  then show ?thesis
    using m m' sets by (rule map_sorted_distinct_set_unique)
qed

lemma print_items_comma_separated: "print_items xs = comma_separated xs"
  by (induction xs rule: comma_separated.induct) simp_all

lemma map_of_map_insert_absent:
  "k \<notin> fst ` set m \<Longrightarrow> map_of (map_insert k v m) = (map_of m)(k \<mapsto> v)"
proof (induction m)
  case Nil
  then show ?case by simp
next
  case (Cons e m)
  obtain k' v' where e: "e = (k', v')" by (cases e)
  from Cons.prems have ne: "k \<noteq> k'" and abs: "k \<notin> fst ` set m" by (auto simp: e)
  show ?case
  proof (cases "k < k'")
    case True
    then show ?thesis by (auto simp: e fun_eq_iff)
  next
    case False
    with ne have "k' < k" by simp
    with False Cons.IH [OF abs] ne show ?thesis by (auto simp: e fun_eq_iff)
  qed
qed

lemma map_of_map_insert:
  "map_inv m \<Longrightarrow> map_of (map_insert k v m) = (map_of [(k, v)]) ++ map_of m"
proof (cases "k \<in> fst ` set m")
  case True
  assume "map_inv m"
  with True have "map_insert k v m = m" by (simp add: map_insert_present)
  moreover from True have "map_of m k \<noteq> None" by (simp add: map_of_eq_None_iff)
  ultimately show ?thesis by (auto simp: fun_eq_iff map_add_def split: option.splits)
next
  case False
  then have "map_of m k = None" by (simp add: map_of_eq_None_iff)
  with map_of_map_insert_absent [OF False, of v] show ?thesis
    by (auto simp: fun_eq_iff map_add_def split: option.splits)
qed

lemma map_of_foldl_Dict_Add:
  "map_inv acc \<Longrightarrow>
     map_of (foldl (\<lambda>d (key, sub). snd (Dict_Add key sub d)) acc kvs) = map_of kvs ++ map_of acc"
proof (induction kvs arbitrary: acc)
  case Nil
  then show ?case by simp
next
  case (Cons e kvs)
  obtain k v where e: "e = (k, v)" by (cases e)
  from Cons.prems have inv: "map_inv (map_insert k v acc)" by (rule map_inv_insert)
  from Cons.IH [OF inv] map_of_map_insert [OF Cons.prems, of k v] show ?case
    by (auto simp: e Dict_Add_def fun_eq_iff map_add_def split: option.splits)
qed

lemma Dict_Get_Dict_of: "Dict_Get (Dict_of kvs) key = map_of kvs key"
proof -
  have "map_inv ([] :: (string \<times> container) list)" by (simp add: map_inv_def)
  from map_of_foldl_Dict_Add [OF this, of kvs] show ?thesis
    by (simp add: Dict_Get_map_find map_find_map_of Dict_of_def)
qed

lemma keys_Dict_of: "map fst (Dict_of kvs) = sorted_list_of_set (set (map fst kvs))"
proof -
  have "dom (map_of (Dict_of kvs)) = dom (map_of kvs)"
    using Dict_Get_Dict_of [of kvs] by (simp add: Dict_Get_map_find map_find_map_of dom_def)
  then have keys: "set (map fst (Dict_of kvs)) = set (map fst kvs)"
    by (simp add: dom_map_of_conv_image_fst)
  from map_inv_Dict_of [of kvs] have "sorted (map fst (Dict_of kvs))" "distinct (map fst (Dict_of kvs))"
    by (simp_all add: map_inv_def strict_sorted_iff)
  with keys show ?thesis
    by (intro sorted_distinct_set_unique) simp_all
qed


text \<open>
  C7. Whatever the order of the \<open>Add\<close> calls that built a Dict, its keys are held in
  strictly ascending order and are the sorted keys that were added, each key is bound to
  the value it was first added with, and \<open>Print\<close> writes \<open>Dict(\<close>, the entries as
  \<open>key=value\<close> in that order with a comma and a space between them, and \<open>)\<close>; so two
  Dicts that map the same keys to the same values print the same text.
\<close>

theorem Dict_Print_sorted:
  "sorted_wrt (<) (map fst (Dict_of kvs)) \<and>
   map fst (Dict_of kvs) = sorted_list_of_set (set (map fst kvs)) \<and>
   Dict_Get (Dict_of kvs) key = map_of kvs key \<and>
   Print tsf tsd (Dict (Dict_of kvs)) =
     ''Dict('' @ comma_separated (map (\<lambda>(nm, sub). nm @ ''='' @ Print tsf tsd sub) (Dict_of kvs)) @ '')'' \<and>
   ((\<forall>key. Dict_Get (Dict_of kvs) key = Dict_Get (Dict_of kvs') key)
      \<longrightarrow> Print tsf tsd (Dict (Dict_of kvs)) = Print tsf tsd (Dict (Dict_of kvs')))"
proof (intro conjI impI)
  show "sorted_wrt (<) (map fst (Dict_of kvs))"
    using map_inv_Dict_of [of kvs] by (simp add: map_inv_def)
next
  show "map fst (Dict_of kvs) = sorted_list_of_set (set (map fst kvs))" by (rule keys_Dict_of)
next
  show "Dict_Get (Dict_of kvs) key = map_of kvs key" by (rule Dict_Get_Dict_of)
next
  show "Print tsf tsd (Dict (Dict_of kvs)) =
     ''Dict('' @ comma_separated (map (\<lambda>(nm, sub). nm @ ''='' @ Print tsf tsd sub) (Dict_of kvs)) @ '')''"
    by (simp add: print_items_comma_separated)
next
  assume "\<forall>key. Dict_Get (Dict_of kvs) key = Dict_Get (Dict_of kvs') key"
  then have "\<And>k. map_find k (Dict_of kvs) = map_find k (Dict_of kvs')"
    by (simp add: Dict_Get_map_find)
  with map_inv_Dict_of [of kvs] map_inv_Dict_of [of kvs'] have "Dict_of kvs = Dict_of kvs'"
    by (rule map_inv_unique)
  then show "Print tsf tsd (Dict (Dict_of kvs)) = Print tsf tsd (Dict (Dict_of kvs'))"
    by simp
qed

theorem Dict_Print_sorted_witness:
  "Print (\<lambda>f. ''f'') (\<lambda>d. ''d'')
     (Dict (Dict_of [(''pos'', Box [2] (Box_uint32 [1, 2])), (''n'', Discrete 0 3)]))
     = ''Dict(n=3, pos=[1, 2])'' \<and>
   Print (\<lambda>f. ''f'') (\<lambda>d. ''d'')
     (Dict (Dict_of [(''n'', Discrete 0 3), (''pos'', Box [2] (Box_uint32 [1, 2]))]))
     = ''Dict(n=3, pos=[1, 2])'' \<and>
   map fst (Dict_of [(''pos'', Box [2] (Box_uint32 [1, 2])), (''n'', Discrete 0 3)]) = [''n'', ''pos'']"
proof -
  let ?a = "[(''pos'', Box [2] (Box_uint32 [1, 2])), (''n'', Discrete 0 3)]"
  let ?b = "[(''n'', Discrete 0 3), (''pos'', Box [2] (Box_uint32 [1, 2]))]"
  let ?P = "Print (\<lambda>f. ''f'') (\<lambda>d. ''d'')"
  have same: "\<forall>key. Dict_Get (Dict_of ?a) key = Dict_Get (Dict_of ?b) key"
    by (simp add: Dict_of_def Dict_Add_def)
  have ents: "Dict_of ?b = ?b" by (simp add: Dict_of_def Dict_Add_def)
  note t = Dict_Print_sorted [of ?a "''n''" "\<lambda>f. ''f''" "\<lambda>d. ''d''" ?b]
  note u = Dict_Print_sorted [of ?b "''n''" "\<lambda>f. ''f''" "\<lambda>d. ''d''" ?b]
  from t same have eq: "?P (Dict (Dict_of ?a)) = ?P (Dict (Dict_of ?b))" by blast
  from u have "?P (Dict (Dict_of ?b)) =
     ''Dict('' @ comma_separated (map (\<lambda>(nm, sub). nm @ ''='' @ ?P sub) (Dict_of ?b)) @ '')''"
    by blast
  moreover have "char_of (49 :: nat) = CHR ''1''" "char_of (50 :: nat) = CHR ''2''"
    "char_of (51 :: nat) = CHR ''3''"
    by code_simp+
  ultimately have rendered: "?P (Dict (Dict_of ?b)) = ''Dict(n=3, pos=[1, 2])''"
    by (simp add: ents to_string_uint32_def)
  from t have "map fst (Dict_of ?a) = sorted_list_of_set (set (map fst ?a))" by blast
  then have keys: "map fst (Dict_of ?a) = [''n'', ''pos'']"
    by (simp add: Dict_of_def Dict_Add_def)
  from eq rendered keys show ?thesis by simp
qed

section \<open>Properties of the interface\<close>

subsection \<open>Callbacks and single calls\<close>

lemma only_sim_refl: "only_sim st st"
  unfolding only_sim_def by (rule exI [of _ "sim st"]) simp

lemma only_sim_trans: "only_sim a b \<Longrightarrow> only_sim b c \<Longrightarrow> only_sim a c"
  unfolding only_sim_def by auto

lemma only_sim_call_cb: "only_sim st (snd (call_cb cb d st))"
  unfolding only_sim_def call_cb_def
  by (cases cb) (auto simp: case_prod_unfold Let_def intro: exI [of _ "sim st"])

lemma only_sim_fields:
  assumes "only_sim st st'"
  shows "m_simEnd st' = m_simEnd st" "m_stopEnvRequested st' = m_stopEnvRequested st"
    "m_initSimMsgSent st' = m_initSimMsgSent st" "py2cpp st' = py2cpp st" "trace st' = trace st"
    "m_actionCb st' = m_actionCb st"
  using assms unfolding only_sim_def by auto

lemma only_sim_getters:
  "only_sim st (snd (GetActionSpace st))" "only_sim st (snd (GetObservationSpace st))"
  "only_sim st (snd (GetObservation st))" "only_sim st (snd (GetReward st))"
  "only_sim st (snd (IsGameOver st))" "only_sim st (snd (GetExtraInfo st))"
  by (simp_all add: GetActionSpace_def GetObservationSpace_def GetObservation_def GetReward_def
      IsGameOver_def GetExtraInfo_def only_sim_call_cb case_prod_unfold Let_def)


lemma Init_cases:
  assumes "Init fits st = (r, st')"
  shows "(m_initSimMsgSent st \<and> r = Returned \<and> st' = st) \<or>
         (\<not> m_initSimMsgSent st \<and> m_initSimMsgSent st' \<and> m_simEnd st' = m_simEnd st \<and>
            ((r = Aborted assert_failed \<and> trace st' = trace st) \<or>
             (\<exists>msg. r = Blocked \<and> py2cpp st = [] \<and> trace st' = trace st @ [CppSend (SimInit msg)]) \<or>
             (\<exists>msg buf rest. py2cpp st = buf # rest \<and> py2cpp st' = rest \<and>
                 ((r = Exited \<and> ack_stopsimreq (as_SimInitAck buf) \<and> m_stopEnvRequested st' \<and>
                   trace st' = trace st @ [CppSend (SimInit msg), RecvSimInitAck (as_SimInitAck buf),
                                           Simulator_Stop, Simulator_Destroy])
                 \<or> (r = Returned \<and> \<not> ack_stopsimreq (as_SimInitAck buf) \<and>
                     m_stopEnvRequested st' = m_stopEnvRequested st \<and>
                     m_actionCb st' = m_actionCb st \<and>
                     trace st' = trace st @ [CppSend (SimInit msg), RecvSimInitAck (as_SimInitAck buf)])))))"
proof (cases "m_initSimMsgSent st")
  case True
  with assms show ?thesis by (simp add: Init_def)
next
  case False
  define st1 where "st1 = st\<lparr>m_initSimMsgSent := True\<rparr>"
  define st2 where "st2 = snd (GetObservationSpace st1)"
  define st3 where "st3 = snd (GetActionSpace st2)"
  define msg where "msg = \<lparr>obsspace = fst (GetObservationSpace st1), actspace = fst (GetActionSpace st2)\<rparr>"
  have "only_sim st1 st3"
    unfolding st3_def st2_def by (rule only_sim_trans [OF only_sim_getters(2) only_sim_getters(1)])
  note f = only_sim_fields [OF this]
  have f1: "m_simEnd st1 = m_simEnd st" "m_stopEnvRequested st1 = m_stopEnvRequested st"
    "m_initSimMsgSent st1" "py2cpp st1 = py2cpp st" "trace st1 = trace st" "m_actionCb st1 = m_actionCb st"
    by (simp_all add: st1_def)
  have unf: "Init fits st =
     (if \<not> fits (SimInit msg) then (Aborted assert_failed, st3)
      else case py2cpp st3 of
             [] \<Rightarrow> (Blocked, st3\<lparr>trace := trace st3 @ [CppSend (SimInit msg)]\<rparr>)
           | buf # rest \<Rightarrow>
               if ack_stopsimreq (as_SimInitAck buf)
               then (Exited, st3\<lparr>trace := trace st3 @ [CppSend (SimInit msg), RecvSimInitAck (as_SimInitAck buf),
                                           Simulator_Stop, Simulator_Destroy],
                                 py2cpp := rest, m_stopEnvRequested := True\<rparr>)
               else (Returned, st3\<lparr>trace := trace st3 @ [CppSend (SimInit msg), RecvSimInitAck (as_SimInitAck buf)],
                                   py2cpp := rest\<rparr>))"
    using False
    by (simp add: Init_def Let_def case_prod_unfold st1_def [symmetric] st2_def [symmetric]
        st3_def [symmetric] msg_def [symmetric] split: list.splits)
  from f(4) f1(4) have inbox: "py2cpp st3 = py2cpp st" by simp
  from f(5) f1(5) have tr: "trace st3 = trace st" by simp
  from f(1) f1(1) have se: "m_simEnd st3 = m_simEnd st" by simp
  from f(2) f1(2) have sr: "m_stopEnvRequested st3 = m_stopEnvRequested st" by simp
  from f(3) f1(3) have ini: "m_initSimMsgSent st3" by simp
  from f(6) f1(6) have ac: "m_actionCb st3 = m_actionCb st" by simp
  show ?thesis
  proof (cases "fits (SimInit msg)")
    case nofit: False
    with assms unf have "r = Aborted assert_failed" "st' = st3" by simp_all
    with False tr se ini show ?thesis by simp
  next
    case fit: True
    show ?thesis
    proof (cases "py2cpp st3")
      case Nil
      with assms unf fit have "r = Blocked" "st' = st3\<lparr>trace := trace st3 @ [CppSend (SimInit msg)]\<rparr>"
        by simp_all
      with False tr se ini inbox Nil show ?thesis by simp
    next
      case (Cons buf rest)
      show ?thesis
      proof (cases "ack_stopsimreq (as_SimInitAck buf)")
        case True
        with assms unf fit Cons have "r = Exited"
          "st' = st3\<lparr>trace := trace st3 @ [CppSend (SimInit msg), RecvSimInitAck (as_SimInitAck buf),
                                           Simulator_Stop, Simulator_Destroy],
                     py2cpp := rest, m_stopEnvRequested := True\<rparr>"
          by simp_all
        with tr se ini inbox Cons True
        have "py2cpp st = buf # rest \<and> py2cpp st' = rest \<and> r = Exited \<and>
              ack_stopsimreq (as_SimInitAck buf) \<and> m_stopEnvRequested st' \<and>
              trace st' = trace st @ [CppSend (SimInit msg), RecvSimInitAck (as_SimInitAck buf),
                                           Simulator_Stop, Simulator_Destroy] \<and>
              m_initSimMsgSent st' \<and> m_simEnd st' = m_simEnd st"
          by simp
        with False show ?thesis by blast
      next
        case nostop: False
        with assms unf fit Cons have "r = Returned"
          "st' = st3\<lparr>trace := trace st3 @ [CppSend (SimInit msg), RecvSimInitAck (as_SimInitAck buf)],
                     py2cpp := rest\<rparr>"
          by simp_all
        with tr se sr ini inbox ac Cons nostop
        have "py2cpp st = buf # rest \<and> py2cpp st' = rest \<and> r = Returned \<and>
              \<not> ack_stopsimreq (as_SimInitAck buf) \<and>
              m_stopEnvRequested st' = m_stopEnvRequested st \<and> m_actionCb st' = m_actionCb st \<and>
              trace st' = trace st @ [CppSend (SimInit msg), RecvSimInitAck (as_SimInitAck buf)] \<and>
              m_initSimMsgSent st' \<and> m_simEnd st' = m_simEnd st"
          by simp
        with False show ?thesis by blast
      qed
    qed
  qed
qed


lemma only_sim_collect: "only_sim st (snd (collect_env_state st))"
proof -
  define st1 where "st1 = snd (GetObservation st)"
  define st2 where "st2 = snd (GetReward st1)"
  define st3 where "st3 = snd (IsGameOver st2)"
  define st4 where "st4 = snd (GetExtraInfo st3)"
  have "only_sim st st1" "only_sim st1 st2" "only_sim st2 st3" "only_sim st3 st4"
    by (simp_all add: st1_def st2_def st3_def st4_def only_sim_getters)
  then have "only_sim st st4" by (blast intro: only_sim_trans)
  moreover have "snd (collect_env_state st) = st4"
    by (simp add: collect_env_state_def case_prod_unfold Let_def st1_def st2_def st3_def st4_def)
  ultimately show ?thesis by simp
qed

lemma collect_simEnd:
  "m_simEnd st \<Longrightarrow> isgameover (fst (collect_env_state st)) \<and>
     reason (fst (collect_env_state st)) = Some SimulationEnd"
proof -
  assume se: "m_simEnd st"
  define st1 where "st1 = snd (GetObservation st)"
  define st2 where "st2 = snd (GetReward st1)"
  define st3 where "st3 = snd (IsGameOver st2)"
  define st4 where "st4 = snd (GetExtraInfo st3)"
  have "only_sim st st1" "only_sim st1 st2" "only_sim st2 st3" "only_sim st3 st4"
    by (simp_all add: st1_def st2_def st3_def st4_def only_sim_getters)
  then have "only_sim st st2" "only_sim st st4" by (blast intro: only_sim_trans)+
  with se have se2: "m_simEnd st2" and se4: "m_simEnd st4" by (simp_all add: only_sim_fields)
  have "only_sim st2 (snd (call_cb (m_gameOverCb st2) False st2))" by (rule only_sim_call_cb)
  with se2 have "m_simEnd (snd (call_cb (m_gameOverCb st2) False st2))" by (simp add: only_sim_fields)
  then have go: "fst (IsGameOver st2)" by (simp add: IsGameOver_def case_prod_unfold Let_def)
  have "fst (collect_env_state st) =
          make_envStateMsg (m_simEnd st4) (fst (GetObservation st)) (fst (GetReward st1))
            (fst (IsGameOver st2)) (fst (GetExtraInfo st3))"
    by (simp add: collect_env_state_def case_prod_unfold Let_def st1_def st2_def st3_def st4_def)
  with go se4 show ?thesis by (simp add: make_envStateMsg_def)
qed

lemma ExecuteActions_fields:
  "m_simEnd (snd (ExecuteActions a st)) = m_simEnd st"
  "m_stopEnvRequested (snd (ExecuteActions a st)) = m_stopEnvRequested st"
  "m_initSimMsgSent (snd (ExecuteActions a st)) = m_initSimMsgSent st"
  "py2cpp (snd (ExecuteActions a st)) = py2cpp st"
  "trace (snd (ExecuteActions a st)) = trace st @ (if m_actionCb st = None then [] else [ActionCb a])"
  by (cases "m_actionCb st"; simp add: ExecuteActions_def case_prod_unfold Let_def)+

lemma exchange_state_cases:
  assumes "exchange_state fits st = (r, st')"
  shows "m_simEnd st' = m_simEnd st \<and> m_initSimMsgSent st' = m_initSimMsgSent st \<and>
    ((r = Aborted assert_failed \<and> trace st' = trace st) \<or>
     (r = Blocked \<and> py2cpp st = [] \<and>
        trace st' = trace st @ [CppSend (EnvState (fst (collect_env_state st)))]) \<or>
     (\<exists>buf rest. py2cpp st = buf # rest \<and> py2cpp st' = rest \<and>
        ((m_simEnd st \<and> r = Returned \<and> m_stopEnvRequested st' = m_stopEnvRequested st \<and>
          trace st' = trace st @ [CppSend (EnvState (fst (collect_env_state st))),
                                  RecvEnvAct (as_EnvActMsg buf)]) \<or>
         (\<not> m_simEnd st \<and> stopsimreq (as_EnvActMsg buf) \<and> r = Exited \<and> m_stopEnvRequested st' \<and>
          trace st' = trace st @ [CppSend (EnvState (fst (collect_env_state st))),
                                  RecvEnvAct (as_EnvActMsg buf), Simulator_Stop, Simulator_Destroy]) \<or>
         (\<not> m_simEnd st \<and> \<not> stopsimreq (as_EnvActMsg buf) \<and>
          m_stopEnvRequested st' = m_stopEnvRequested st \<and>
          (\<exists>e. r = Aborted e \<and> CreateFromDataContainerPbMsg (actdata (as_EnvActMsg buf)) = Inl e) \<and>
          trace st' = trace st @ [CppSend (EnvState (fst (collect_env_state st))),
                                  RecvEnvAct (as_EnvActMsg buf)]) \<or>
         (\<not> m_simEnd st \<and> \<not> stopsimreq (as_EnvActMsg buf) \<and> r = Returned \<and>
          m_stopEnvRequested st' = m_stopEnvRequested st \<and>
          (\<exists>a. CreateFromDataContainerPbMsg (actdata (as_EnvActMsg buf)) = Inr a \<and>
            trace st' = trace st @ [CppSend (EnvState (fst (collect_env_state st))),
                                    RecvEnvAct (as_EnvActMsg buf)]
                          @ (if m_actionCb st = None then [] else [ActionCb a]))))))"
proof -
  define msg where "msg = fst (collect_env_state st)"
  define st4 where "st4 = snd (collect_env_state st)"
  have "only_sim st st4" unfolding st4_def by (rule only_sim_collect)
  note f = only_sim_fields [OF this]
  have unf: "exchange_state fits st =
     (if \<not> fits (EnvState msg) then (Aborted assert_failed, st4)
      else case py2cpp st of
             [] \<Rightarrow> (Blocked, st4\<lparr>trace := trace st @ [CppSend (EnvState msg)]\<rparr>)
           | buf # rest \<Rightarrow>
               if m_simEnd st
               then (Returned, st4\<lparr>py2cpp := rest, trace := trace st @ [CppSend (EnvState msg), RecvEnvAct (as_EnvActMsg buf)]\<rparr>)
               else if stopsimreq (as_EnvActMsg buf)
               then (Exited, st4\<lparr>m_stopEnvRequested := True, py2cpp := rest, trace := trace st @ [CppSend (EnvState msg), RecvEnvAct (as_EnvActMsg buf),
                                                       Simulator_Stop, Simulator_Destroy]\<rparr>)
               else (case CreateFromDataContainerPbMsg (actdata (as_EnvActMsg buf)) of
                       Inl e \<Rightarrow> (Aborted e, st4\<lparr>py2cpp := rest, trace := trace st @ [CppSend (EnvState msg), RecvEnvAct (as_EnvActMsg buf)]\<rparr>)
                     | Inr a \<Rightarrow> (Returned, snd (ExecuteActions a
                           (st4\<lparr>py2cpp := rest, trace := trace st @ [CppSend (EnvState msg), RecvEnvAct (as_EnvActMsg buf)]\<rparr>)))))"
    by (simp add: exchange_state_def Let_def case_prod_unfold msg_def [symmetric] st4_def [symmetric] f
        split: list.splits sum.splits)
  show ?thesis
  proof (cases "fits (EnvState msg)")
    case False
    with assms unf have "r = Aborted assert_failed" "st' = st4" by simp_all
    with f show ?thesis by simp
  next
    case fit: True
    show ?thesis
    proof (cases "py2cpp st")
      case Nil
      with assms unf fit have "r = Blocked" "st' = st4\<lparr>trace := trace st @ [CppSend (EnvState msg)]\<rparr>"
        by simp_all
      with f Nil show ?thesis by (simp add: msg_def)
    next
      case (Cons buf rest)
      show ?thesis
      proof (cases "m_simEnd st")
        case True
        with assms unf fit Cons have "r = Returned"
          "st' = st4\<lparr>py2cpp := rest, trace := trace st @ [CppSend (EnvState msg), RecvEnvAct (as_EnvActMsg buf)]\<rparr>"
          by simp_all
        with f Cons True show ?thesis by (simp add: msg_def)
      next
        case live: False
        show ?thesis
        proof (cases "stopsimreq (as_EnvActMsg buf)")
          case True
          with assms unf fit Cons live have "r = Exited"
            "st' = st4\<lparr>m_stopEnvRequested := True, py2cpp := rest, trace := trace st @ [CppSend (EnvState msg), RecvEnvAct (as_EnvActMsg buf),
                                                       Simulator_Stop, Simulator_Destroy]\<rparr>"
            by simp_all
          with f Cons live True show ?thesis by (simp add: msg_def)
        next
          case nostop: False
          show ?thesis
          proof (cases "CreateFromDataContainerPbMsg (actdata (as_EnvActMsg buf))")
            case (Inl e)
            with assms unf fit Cons live nostop have "r = Aborted e"
              "st' = st4\<lparr>py2cpp := rest, trace := trace st @ [CppSend (EnvState msg), RecvEnvAct (as_EnvActMsg buf)]\<rparr>"
              by simp_all
            with f Cons live nostop Inl show ?thesis by (simp add: msg_def)
          next
            case (Inr a)
            with assms unf fit Cons live nostop have "r = Returned"
              "st' = snd (ExecuteActions a
                        (st4\<lparr>py2cpp := rest, trace := trace st @ [CppSend (EnvState msg), RecvEnvAct (as_EnvActMsg buf)]\<rparr>))"
              by simp_all
            with f Cons live nostop Inr show ?thesis by (simp add: msg_def ExecuteActions_fields)
          qed
        qed
      qed
    qed
  qed
qed

lemma NotifyCurrentState_Init:
  "NotifyCurrentState fits st =
     (case Init fits st of
        (Returned, st0) \<Rightarrow> if m_stopEnvRequested st0 then (Returned, st0) else exchange_state fits st0
      | (r, st0) \<Rightarrow> (r, st0))"
proof (cases "m_initSimMsgSent st")
  case True
  then have "Init fits st = (Returned, st)" by (simp add: Init_def)
  with True show ?thesis by (simp add: NotifyCurrentState_def)
next
  case False
  then show ?thesis
    by (cases "Init fits st"; cases "fst (Init fits st)") (simp_all add: NotifyCurrentState_def)
qed

lemma Init_summary:
  assumes "Init fits st = (r, st')"
  shows "trace st' = trace st @ new_events st st'"
    and "m_simEnd st' = m_simEnd st"
    and "m_initSimMsgSent st \<Longrightarrow> st' = st \<and> r = Returned"
    and "r = Returned \<Longrightarrow> m_initSimMsgSent st' \<and> m_stopEnvRequested st' = m_stopEnvRequested st"
    and "\<not> list_ex is_ActionCb (new_events st st')"
    and "\<not> list_ex is_RecvEnvAct (new_events st st')"
    and "list_ex is_stop_reply (new_events st st') \<Longrightarrow> r = Exited"
    and "\<not> m_initSimMsgSent st \<Longrightarrow> handshake_first (new_events st st')"
    and "\<not> m_initSimMsgSent st \<Longrightarrow> r = Returned \<Longrightarrow>
           \<exists>m a. new_events st st' = [CppSend (SimInit m), RecvSimInitAck a]"
  using Init_cases [OF assms] by (auto simp: new_events_def)


lemma exchange_state_summary:
  assumes "exchange_state fits st = (r, st')"
  shows "trace st' = trace st @ new_events st st'"
    and "m_simEnd st' = m_simEnd st"
    and "m_initSimMsgSent st' = m_initSimMsgSent st"
    and "list_ex is_stop_reply (new_events st st') \<Longrightarrow>
           \<not> list_ex is_ActionCb (new_events st st') \<and> (r = Exited \<or> (r = Returned \<and> m_simEnd st))"
    and "m_simEnd st \<Longrightarrow> \<not> list_ex is_ActionCb (new_events st st')"
    and "m_simEnd st \<Longrightarrow> list_ex is_RecvEnvAct (new_events st st') \<Longrightarrow>
           r = Returned \<and> m_stopEnvRequested st' = m_stopEnvRequested st \<and>
           Simulator_Stop \<notin> set (new_events st st') \<and> Simulator_Destroy \<notin> set (new_events st st')"
    and "\<not> list_ex is_SimInit_send (new_events st st')"
  using exchange_state_cases [OF assms] by (auto simp: new_events_def split: if_splits)

lemma exchange_state_simEnd:
  assumes "exchange_state fits st = (r, st')" and "m_simEnd st" and "py2cpp st = buf # rest"
  shows "(r = Aborted assert_failed \<and> new_events st st' = []) \<or>
         (r = Returned \<and> py2cpp st' = rest \<and>
          new_events st st' = [CppSend (EnvState (fst (collect_env_state st))),
                               RecvEnvAct (as_EnvActMsg buf)])"
  using exchange_state_cases [OF assms(1)] assms(2,3) by (auto simp: new_events_def)

lemma new_events_append:
  "trace b = trace a @ x \<Longrightarrow> trace c = trace b @ y \<Longrightarrow> new_events a c = x @ y"
  by (simp add: new_events_def)

lemma NotifyCurrentState_cases:
  assumes "NotifyCurrentState fits st = (r, st')"
  obtains (stop) st0 where "Init fits st = (r, st0)" "r \<noteq> Returned" "st' = st0"
    | (requested) "Init fits st = (Returned, st')" "r = Returned" "m_stopEnvRequested st'"
    | (exchange) st0 where "Init fits st = (Returned, st0)" "\<not> m_stopEnvRequested st0"
        "exchange_state fits st0 = (r, st')"
proof (cases "Init fits st")
  case (Pair r0 st0)
  show ?thesis
  proof (cases "r0 = Returned")
    case False
    with Pair assms have "r = r0" "st' = st0"
      by (cases r0; simp add: NotifyCurrentState_Init)+
    with Pair False show ?thesis by (intro stop [of st0]) simp_all
  next
    case True
    show ?thesis
    proof (cases "m_stopEnvRequested st0")
      case True
      with Pair \<open>r0 = Returned\<close> assms have "r = Returned" "st' = st0"
        by (simp_all add: NotifyCurrentState_Init)
      with Pair \<open>r0 = Returned\<close> True show ?thesis by (intro requested) simp_all
    next
      case False
      with Pair \<open>r0 = Returned\<close> assms have "exchange_state fits st0 = (r, st')"
        by (simp add: NotifyCurrentState_Init)
      with Pair \<open>r0 = Returned\<close> False show ?thesis by (intro exchange [of st0]) simp_all
    qed
  qed
qed

lemma NotifyCurrentState_summary:
  assumes "NotifyCurrentState fits st = (r, st')"
  shows "trace st' = trace st @ new_events st st'"
    and "m_simEnd st' = m_simEnd st"
    and "m_initSimMsgSent st \<Longrightarrow> m_initSimMsgSent st'"
    and "r = Returned \<Longrightarrow> m_initSimMsgSent st'"
    and "list_ex is_stop_reply (new_events st st') \<Longrightarrow>
           \<not> list_ex is_ActionCb (new_events st st') \<and> (r = Exited \<or> (r = Returned \<and> m_simEnd st))"
    and "m_simEnd st \<Longrightarrow> \<not> list_ex is_ActionCb (new_events st st')"
    and "m_simEnd st \<Longrightarrow> list_ex is_RecvEnvAct (new_events st st') \<Longrightarrow>
           r = Returned \<and> \<not> m_stopEnvRequested st' \<and>
           Simulator_Stop \<notin> set (new_events st st') \<and> Simulator_Destroy \<notin> set (new_events st st')"
    and "\<not> m_initSimMsgSent st \<Longrightarrow> handshake_first (new_events st st')"
    and "\<not> m_initSimMsgSent st \<Longrightarrow> r = Returned \<Longrightarrow>
           \<exists>m a rest. new_events st st' = CppSend (SimInit m) # RecvSimInitAck a # rest"
    and "m_initSimMsgSent st \<Longrightarrow> \<not> list_ex is_SimInit_send (new_events st st')"
proof -
  have "trace st' = trace st @ new_events st st' \<and>
    m_simEnd st' = m_simEnd st \<and>
    (m_initSimMsgSent st \<longrightarrow> m_initSimMsgSent st') \<and>
    (r = Returned \<longrightarrow> m_initSimMsgSent st') \<and>
    (list_ex is_stop_reply (new_events st st') \<longrightarrow>
           \<not> list_ex is_ActionCb (new_events st st') \<and> (r = Exited \<or> (r = Returned \<and> m_simEnd st))) \<and>
    (m_simEnd st \<longrightarrow> \<not> list_ex is_ActionCb (new_events st st')) \<and>
    (m_simEnd st \<longrightarrow> list_ex is_RecvEnvAct (new_events st st') \<longrightarrow>
           r = Returned \<and> \<not> m_stopEnvRequested st' \<and>
           Simulator_Stop \<notin> set (new_events st st') \<and> Simulator_Destroy \<notin> set (new_events st st')) \<and>
    (\<not> m_initSimMsgSent st \<longrightarrow> handshake_first (new_events st st')) \<and>
    (\<not> m_initSimMsgSent st \<longrightarrow> r = Returned \<longrightarrow>
           (\<exists>m a rest. new_events st st' = CppSend (SimInit m) # RecvSimInitAck a # rest)) \<and>
    (m_initSimMsgSent st \<longrightarrow> \<not> list_ex is_SimInit_send (new_events st st'))"
  using assms
  proof (cases rule: NotifyCurrentState_cases)
    case (stop st0)
    note i = Init_summary [OF stop(1)]
    from stop(2,3) i show ?thesis by auto
  next
    case requested
    note i = Init_summary [OF requested(1)]
    from requested(2,3) i show ?thesis by (auto simp: list_ex_iff)
  next
    case (exchange st0)
    note i = Init_summary [OF exchange(1)]
    note e = exchange_state_summary [OF exchange(3)]
    have ne: "new_events st st' = new_events st st0 @ new_events st0 st'"
      using i(1) e(1) by (rule new_events_append)
    show ?thesis
    proof (cases "m_initSimMsgSent st")
      case True
      with i(3) have "st0 = st" by simp
      with True e exchange(2) show ?thesis by auto
    next
      case False
      from i(9) [OF False] obtain m a where hs: "new_events st st0 = [CppSend (SimInit m), RecvSimInitAck a]"
        by auto
      from i(7) hs have nostop: "\<not> ack_stopsimreq a" by auto
      from i(4) have f0: "m_initSimMsgSent st0" by simp
      from False hs nostop f0 e i(1,2) exchange(2) show ?thesis
        unfolding ne by (auto simp: e(1))
    qed
  qed
  then show "trace st' = trace st @ new_events st st'"
    and "m_simEnd st' = m_simEnd st"
    and "m_initSimMsgSent st \<Longrightarrow> m_initSimMsgSent st'"
    and "r = Returned \<Longrightarrow> m_initSimMsgSent st'"
    and "list_ex is_stop_reply (new_events st st') \<Longrightarrow>
           \<not> list_ex is_ActionCb (new_events st st') \<and> (r = Exited \<or> (r = Returned \<and> m_simEnd st))"
    and "m_simEnd st \<Longrightarrow> \<not> list_ex is_ActionCb (new_events st st')"
    and "m_simEnd st \<Longrightarrow> list_ex is_RecvEnvAct (new_events st st') \<Longrightarrow>
           r = Returned \<and> \<not> m_stopEnvRequested st' \<and>
           Simulator_Stop \<notin> set (new_events st st') \<and> Simulator_Destroy \<notin> set (new_events st st')"
    and "\<not> m_initSimMsgSent st \<Longrightarrow> handshake_first (new_events st st')"
    and "\<not> m_initSimMsgSent st \<Longrightarrow> r = Returned \<Longrightarrow>
           \<exists>m a rest. new_events st st' = CppSend (SimInit m) # RecvSimInitAck a # rest"
    and "m_initSimMsgSent st \<Longrightarrow> \<not> list_ex is_SimInit_send (new_events st st')"
    by blast+
qed

subsection \<open>Sequences of calls\<close>

lemma handshake_done_append: "handshake_done tr \<Longrightarrow> handshake_done (tr @ new)"
  by (cases tr rule: handshake_done.cases) simp_all

lemma handshake_done_first: "handshake_done tr \<Longrightarrow> handshake_first tr"
  by (cases tr rule: handshake_done.cases) simp_all

lemma handshake_done_iff:
  "handshake_done tr \<longleftrightarrow> (\<exists>m a rest. tr = CppSend (SimInit m) # RecvSimInitAck a # rest)"
  by (cases tr rule: handshake_done.cases) simp_all

lemma call_inv_same_trace:
  assumes "trace st1 = trace st" "m_simEnd st \<longrightarrow> m_simEnd st1"
    "m_initSimMsgSent st1 = m_initSimMsgSent st" and "call_inv st1 r st'"
  shows "call_inv st r st'"
  using assms unfolding call_inv_def handshake_inv_def new_events_def by auto

lemma call_inv_skip:
  assumes "trace st' = trace st" "m_simEnd st \<longrightarrow> m_simEnd st'"
    "m_initSimMsgSent st' = m_initSimMsgSent st"
  shows "call_inv st Returned st'"
  using assms unfolding call_inv_def handshake_inv_def new_events_def
  by (auto simp: handshake_done_first)

lemma call_inv_Init:
  assumes "Init fits st = (r, st')"
  shows "call_inv st r st'"
proof (cases "m_initSimMsgSent st")
  case True
  with Init_summary(3) [OF assms] have "st' = st" "r = Returned" by simp_all
  then show ?thesis by (simp add: call_inv_skip)
next
  case False
  note i = Init_summary [OF assms]
  from i(8) [OF False] have hf: "handshake_first (new_events st st')" .
  have inv: "handshake_inv st \<longrightarrow> handshake_first (trace st') \<and> (r = Returned \<longrightarrow> handshake_inv st')"
  proof (intro impI conjI)
    assume "handshake_inv st"
    with False have e: "trace st = []" by (simp add: handshake_inv_def)
    with i(1) hf show "handshake_first (trace st')" by simp
    assume ret: "r = Returned"
    with i(9) [OF False] obtain m a where "new_events st st' = [CppSend (SimInit m), RecvSimInitAck a]"
      by auto
    with i(1) e i(4) ret show "handshake_inv st'" by (simp add: handshake_inv_def)
  qed
  from i(1,2,5) False inv show ?thesis unfolding call_inv_def by auto
qed

lemma call_inv_NotifyCurrentState:
  assumes "NotifyCurrentState fits st = (r, st')"
  shows "call_inv st r st'"
proof -
  note n = NotifyCurrentState_summary [OF assms]
  have inv: "handshake_inv st \<longrightarrow> handshake_first (trace st') \<and> (r = Returned \<longrightarrow> handshake_inv st')"
  proof (cases "m_initSimMsgSent st")
    case True
    with n(1,3) show ?thesis
      by (auto simp: handshake_inv_def dest: handshake_done_append handshake_done_first)
  next
    case False
    show ?thesis
    proof (intro impI conjI)
      assume "handshake_inv st"
      with False have e: "trace st = []" by (simp add: handshake_inv_def)
      with n(1) n(8) [OF False] show "handshake_first (trace st')" by simp
      assume ret: "r = Returned"
      with n(9) [OF False] obtain m a rest where
        "new_events st st' = CppSend (SimInit m) # RecvSimInitAck a # rest" by auto
      with n(1) e n(4) ret show "handshake_inv st'" by (simp add: handshake_inv_def)
    qed
  qed
  from n(1,2,3,6,10) inv show ?thesis unfolding call_inv_def by auto
qed

lemma call_inv_do_call:
  assumes "do_call fits c st = (r, st')"
  shows "call_inv st r st'"
proof (cases c)
  case Call_Init
  with assms show ?thesis by (simp add: call_inv_Init)
next
  case Call_NotifyCurrentState
  with assms show ?thesis by (simp add: call_inv_NotifyCurrentState)
next
  case Call_WaitForStop
  with assms show ?thesis by (simp add: WaitForStop_def call_inv_NotifyCurrentState)
next
  case Call_NotifySimulationEnd
  show ?thesis
  proof (cases "m_initSimMsgSent st")
    case True
    with assms Call_NotifySimulationEnd
    have "NotifyCurrentState fits (st\<lparr>m_simEnd := True\<rparr>) = (r, st')"
      by (simp add: NotifySimulationEnd_def WaitForStop_def)
    then have "call_inv (st\<lparr>m_simEnd := True\<rparr>) r st'" by (rule call_inv_NotifyCurrentState)
    then show ?thesis by (rule call_inv_same_trace [rotated 3]) simp_all
  next
    case False
    with assms Call_NotifySimulationEnd have "r = Returned" "st' = st\<lparr>m_simEnd := True\<rparr>"
      by (simp_all add: NotifySimulationEnd_def)
    then show ?thesis by (simp add: call_inv_skip)
  qed
next
  case (Call_Notify entity)
  let ?st1 = "st\<lparr>m_gameOverCb := Some (env_GetGameOver entity),
           m_obsCb := Some (env_GetObservation entity),
           m_rewardCb := Some (env_GetReward entity),
           m_extraInfoCb := Some (env_GetExtraInfo entity),
           m_actionCb := Some (env_ExecuteActions entity)\<rparr>"
  from assms Call_Notify have "NotifyCurrentState fits ?st1 = (r, st')"
    by (simp add: Notify_def)
  then have "call_inv ?st1 r st'" by (rule call_inv_NotifyCurrentState)
  then show ?thesis by (rule call_inv_same_trace [rotated 3]) simp_all
qed (use assms in \<open>auto simp: call_inv_skip\<close>)

lemma call_inv_trans:
  assumes "call_inv a Returned b" "call_inv b r c"
  shows "call_inv a r c"
proof -
  from assms have ab: "trace b = trace a @ new_events a b" and bc: "trace c = trace b @ new_events b c"
    by (simp_all add: call_inv_def)
  then have ne: "new_events a c = new_events a b @ new_events b c" by (rule new_events_append)
  have tr: "trace c = trace a @ new_events a c" using ab bc ne by simp
  from assms tr show ?thesis
    unfolding call_inv_def ne by auto
qed

lemma call_inv_run:
  "run fits cs st = (r, st') \<Longrightarrow> call_inv st r st'"
proof (induction cs arbitrary: st)
  case Nil
  then show ?case by (simp add: call_inv_skip)
next
  case (Cons c cs)
  obtain r1 st1 where c: "do_call fits c st = (r1, st1)" by (cases "do_call fits c st")
  then have s1: "call_inv st r1 st1" by (rule call_inv_do_call)
  show ?case
  proof (cases "r1 = Returned")
    case True
    with Cons.prems c have "run fits cs st1 = (r, st')" by simp
    then have "call_inv st1 r st'" by (rule Cons.IH)
    with s1 True show ?thesis by (blast intro: call_inv_trans)
  next
    case False
    with Cons.prems c have "r = r1" "st' = st1" by (cases r1; simp)+
    with s1 show ?thesis by simp
  qed
qed


text \<open>
  C5. In every call of a public method in which a reply with \<open>stopSimRequested\<close> set
  is received, be it the \<open>SimInitAck\<close> or the \<open>EnvAct\<close>, the action executor is not
  called, and the call ends: the process exits, or, when the end of the simulation had
  been flagged, the call returns.
\<close>

theorem stop_request_no_action:
  "do_call fits c st = (r, st') \<Longrightarrow> list_ex is_stop_reply (new_events st st') \<Longrightarrow>
     \<not> list_ex is_ActionCb (new_events st st') \<and> (r = Exited \<or> (r = Returned \<and> m_simEnd st'))"
proof -
  assume call: "do_call fits c st = (r, st')" and stop: "list_ex is_stop_reply (new_events st st')"
  have ncs: "\<not> list_ex is_ActionCb (new_events st st') \<and> (r = Exited \<or> (r = Returned \<and> m_simEnd st'))"
    if "NotifyCurrentState fits st1 = (r, st')" "trace st1 = trace st" for st1
  proof -
    from that(2) have "new_events st1 st' = new_events st st'" by (simp add: new_events_def)
    with NotifyCurrentState_summary(2,5) [OF that(1)] stop show ?thesis by auto
  qed
  show ?thesis
  proof (cases c)
    case Call_Init
    with call have i: "Init fits st = (r, st')" by simp
    from Init_summary(5,7) [OF i] stop show ?thesis by simp
  next
    case Call_NotifyCurrentState
    with call show ?thesis by (intro ncs [of st]) simp_all
  next
    case Call_WaitForStop
    with call show ?thesis by (intro ncs [of st]) (simp_all add: WaitForStop_def)
  next
    case Call_NotifySimulationEnd
    show ?thesis
    proof (cases "m_initSimMsgSent st")
      case True
      with call Call_NotifySimulationEnd show ?thesis
        by (intro ncs [of "st\<lparr>m_simEnd := True\<rparr>"]) (simp_all add: NotifySimulationEnd_def WaitForStop_def)
    next
      case False
      with call Call_NotifySimulationEnd have "st' = st\<lparr>m_simEnd := True\<rparr>"
        by (simp add: NotifySimulationEnd_def)
      with stop show ?thesis by (simp add: new_events_def)
    qed
  next
    case (Call_Notify entity)
    with call show ?thesis
      by (intro ncs [of "st\<lparr>m_gameOverCb := Some (env_GetGameOver entity),
           m_obsCb := Some (env_GetObservation entity),
           m_rewardCb := Some (env_GetReward entity),
           m_extraInfoCb := Some (env_GetExtraInfo entity),
           m_actionCb := Some (env_ExecuteActions entity)\<rparr>"]) (simp_all add: Notify_def)
  qed (use call stop in \<open>auto simp: new_events_def\<close>)
qed

lemma run_Init_sent:
  "m_initSimMsgSent st \<Longrightarrow> run fits (replicate n Call_Init) st = (Returned, st)"
  by (induction n) (simp_all add: Init_def)

lemma run_Init_once: "run fits (replicate (Suc n) Call_Init) st = Init fits st"
proof (cases "Init fits st")
  case (Pair r st1)
  show ?thesis
  proof (cases "r = Returned")
    case True
    with Init_summary(4) [OF Pair] have "m_initSimMsgSent st1" by simp
    then have "run fits (replicate n Call_Init) st1 = (Returned, st1)" by (rule run_Init_sent)
    with Pair True show ?thesis by simp
  next
    case False
    with Pair show ?thesis by (cases r) simp_all
  qed
qed

text \<open>
  C4. Any number of calls of \<open>Init\<close> in a row does what the first call does and
  nothing more: a call that follows one that returned changes nothing, so it sends and
  receives nothing. When \<open>Init\<close> had not run before, the calls together send one
  \<open>SimInit\<close> message and receive one acknowledgement; once the flag is set, no
  sequence of calls sends a \<open>SimInit\<close> message again.
\<close>

theorem Init_idempotent:
  "run fits (replicate (Suc n) Call_Init) st = Init fits st \<and>
   (Init fits st = (Returned, st1) \<longrightarrow> Init fits st1 = (Returned, st1)) \<and>
   (\<not> m_initSimMsgSent st \<longrightarrow> run fits (replicate (Suc n) Call_Init) st = (Returned, st1) \<longrightarrow>
      (\<exists>msg ack. new_events st st1 = [CppSend (SimInit msg), RecvSimInitAck ack])) \<and>
   (m_initSimMsgSent st \<longrightarrow> run fits cs st = (r, st2) \<longrightarrow>
      \<not> list_ex is_SimInit_send (new_events st st2))"
proof (intro conjI impI)
  show "run fits (replicate (Suc n) Call_Init) st = Init fits st" by (rule run_Init_once)
next
  assume "Init fits st = (Returned, st1)"
  from Init_summary(4) [OF this] show "Init fits st1 = (Returned, st1)" by (simp add: Init_def)
next
  assume fresh: "\<not> m_initSimMsgSent st"
    and "run fits (replicate (Suc n) Call_Init) st = (Returned, st1)"
  then have i: "Init fits st = (Returned, st1)" by (simp only: run_Init_once)
  from Init_summary(9) [OF i] fresh show "\<exists>msg ack. new_events st st1 = [CppSend (SimInit msg), RecvSimInitAck ack]"
    by simp
next
  assume "m_initSimMsgSent st" and "run fits cs st = (r, st2)"
  with call_inv_run [of fits cs st r st2] show "\<not> list_ex is_SimInit_send (new_events st st2)"
    by (simp add: call_inv_def)
qed

lemma collect_env_state_fields:
  "obsdata (fst (collect_env_state st)) =
     (case fst (GetObservation st) of None \<Rightarrow> None | Some c \<Rightarrow> Some (GetDataContainerPbMsg c))"
  "reward (fst (collect_env_state st)) = fst (GetReward (snd (GetObservation st)))"
  by (simp_all add: collect_env_state_def case_prod_unfold Let_def make_envStateMsg_def)

lemma final_exchange:
  assumes se: "m_simEnd st" and sent: "m_initSimMsgSent st" and nr: "\<not> m_stopEnvRequested st"
    and inbox: "py2cpp st = buf # rest" and call: "NotifyCurrentState fits st = (r, st')"
  shows "(r = Aborted assert_failed \<and> new_events st st' = []) \<or>
        (r = Returned \<and> py2cpp st' = rest \<and>
         new_events st st' = [CppSend (EnvState (fst (collect_env_state st))),
                              RecvEnvAct (as_EnvActMsg buf)] \<and>
         isgameover (fst (collect_env_state st)) \<and>
         reason (fst (collect_env_state st)) = Some SimulationEnd \<and>
         obsdata (fst (collect_env_state st)) =
           (case fst (GetObservation st) of None \<Rightarrow> None | Some c \<Rightarrow> Some (GetDataContainerPbMsg c)) \<and>
         reward (fst (collect_env_state st)) = fst (GetReward (snd (GetObservation st))))"
proof -
  from sent have "Init fits st = (Returned, st)" by (simp add: Init_def)
  with call nr have "exchange_state fits st = (r, st')" by (simp add: NotifyCurrentState_Init)
  from exchange_state_simEnd [OF this se inbox] collect_simEnd [OF se] show ?thesis
    by (simp only: collect_env_state_fields) blast
qed

lemma NotifySimulationEnd_no_action:
  assumes call: "NotifySimulationEnd fits st = (r, st')"
  shows "m_simEnd st' \<and> \<not> list_ex is_ActionCb (new_events st st')"
proof (cases "m_initSimMsgSent st")
  case True
  with call have n: "NotifyCurrentState fits (st\<lparr>m_simEnd := True\<rparr>) = (r, st')"
    by (simp add: NotifySimulationEnd_def WaitForStop_def)
  have "new_events (st\<lparr>m_simEnd := True\<rparr>) st' = new_events st st'" by (simp add: new_events_def)
  with NotifyCurrentState_summary(2,6) [OF n] show ?thesis by simp
next
  case False
  with call have "st' = st\<lparr>m_simEnd := True\<rparr>" by (simp add: NotifySimulationEnd_def)
  then show ?thesis by (simp add: new_events_def)
qed

lemma collect_env_state_callbacks:
  "obsdata (fst (collect_env_state st)) =
     (case m_obsCb st of
        None \<Rightarrow> None
      | Some f \<Rightarrow> (case fst (f (sim st)) of None \<Rightarrow> None | Some c \<Rightarrow> Some (GetDataContainerPbMsg c)))"
  "reward (fst (collect_env_state st)) =
     (case m_rewardCb st of
        None \<Rightarrow> 0
      | Some g \<Rightarrow> fst (g (case m_obsCb st of None \<Rightarrow> sim st | Some f \<Rightarrow> snd (f (sim st)))))"
  by (cases "m_obsCb st"; cases "m_rewardCb st";
      simp add: collect_env_state_def GetObservation_def GetReward_def call_cb_def
        make_envStateMsg_def case_prod_unfold Let_def)+

lemma simEnd_update_fields:
  "m_obsCb (st\<lparr>m_simEnd := True\<rparr>) = m_obsCb st"
  "m_rewardCb (st\<lparr>m_simEnd := True\<rparr>) = m_rewardCb st"
  "sim (st\<lparr>m_simEnd := True\<rparr>) = sim st"
  by simp_all

lemma final_exchange_any:
  assumes se: "m_simEnd st" and nr: "\<not> m_stopEnvRequested st"
    and call: "NotifyCurrentState fits st = (Returned, st')"
  shows "\<exists>st0 buf. Init fits st = (Returned, st0) \<and> py2cpp st0 = buf # py2cpp st' \<and>
           new_events st st' = new_events st st0 @
             [CppSend (EnvState (fst (collect_env_state st0))), RecvEnvAct (as_EnvActMsg buf)] \<and>
           isgameover (fst (collect_env_state st0)) \<and>
           reason (fst (collect_env_state st0)) = Some SimulationEnd"
  using call
proof (cases rule: NotifyCurrentState_cases)
  case (stop st0)
  then show ?thesis by simp
next
  case requested
  from Init_summary(4) [OF requested(1)] nr requested(3) show ?thesis by simp
next
  case (exchange st0)
  note i = Init_summary [OF exchange(1)]
  from i(2) se have se0: "m_simEnd st0" by simp
  from exchange_state_cases [OF exchange(3)] se0
  obtain buf where b: "py2cpp st0 = buf # py2cpp st'"
    and t: "trace st' = trace st0 @ [CppSend (EnvState (fst (collect_env_state st0))),
                                      RecvEnvAct (as_EnvActMsg buf)]"
    by auto
  from i(1) t have "new_events st st' = new_events st st0 @
      [CppSend (EnvState (fst (collect_env_state st0))), RecvEnvAct (as_EnvActMsg buf)]"
    by (rule new_events_append)
  with exchange(1) b collect_simEnd [OF se0] show ?thesis by blast
qed

lemma NotifySimulationEnd_exchange:
  assumes sent: "m_initSimMsgSent st" and nr: "\<not> m_stopEnvRequested st"
    and inbox: "py2cpp st = buf # rest" and call: "NotifySimulationEnd fits st = (r, st')"
  shows "(r = Aborted assert_failed \<and> new_events st st' = []) \<or>
         (r = Returned \<and> m_simEnd st' \<and> py2cpp st' = rest \<and>
          new_events st st' =
            [CppSend (EnvState (fst (collect_env_state (st\<lparr>m_simEnd := True\<rparr>)))),
             RecvEnvAct (as_EnvActMsg buf)] \<and>
          isgameover (fst (collect_env_state (st\<lparr>m_simEnd := True\<rparr>))) \<and>
          reason (fst (collect_env_state (st\<lparr>m_simEnd := True\<rparr>))) = Some SimulationEnd)"
proof -
  let ?fl = "st\<lparr>m_simEnd := True\<rparr>"
  from call sent have n: "NotifyCurrentState fits ?fl = (r, st')"
    by (simp add: NotifySimulationEnd_def WaitForStop_def)
  have ne: "new_events ?fl st' = new_events st st'" by (simp add: new_events_def)
  have "m_simEnd ?fl" "m_initSimMsgSent ?fl" "\<not> m_stopEnvRequested ?fl" "py2cpp ?fl = buf # rest"
    using sent nr inbox by simp_all
  from final_exchange [OF this n] NotifyCurrentState_summary(2) [OF n] show ?thesis
    unfolding ne by auto
qed

lemma NotifySimulationEnd_before_Init:
  "\<not> m_initSimMsgSent st \<Longrightarrow> NotifySimulationEnd fits st = (Returned, st\<lparr>m_simEnd := True\<rparr>)"
  by (simp add: NotifySimulationEnd_def)



text \<open>
  C6. With the end of the simulation flagged, a call of \<open>NotifyCurrentState\<close> that
  returns has sent, after the handshake if that was still due, one state message and
  received one reply, and nothing else. The message carries the observation that the
  observation callback returns, encoded, and the reward that the reward callback returns
  (nothing and zero for a callback that is not set), and it is marked game over with
  reason \<open>SimulationEnd\<close>. \<open>NotifySimulationEnd\<close> sets the flag and, on an initialised
  interface, performs this exchange at once; before \<open>Init\<close> it only sets the flag. The
  action executor is called neither in that call nor in any sequence of calls that
  follows, and the flag is never cleared.
\<close>

theorem simEnd_discards_action:
  "(m_simEnd st \<longrightarrow> m_initSimMsgSent st \<longrightarrow> \<not> m_stopEnvRequested st \<longrightarrow> py2cpp st = buf # rest \<longrightarrow>
      NotifyCurrentState fits st = (r, st') \<longrightarrow>
        (r = Aborted assert_failed \<and> new_events st st' = []) \<or>
        (r = Returned \<and> py2cpp st' = rest \<and>
         new_events st st' = [CppSend (EnvState (fst (collect_env_state st))),
                              RecvEnvAct (as_EnvActMsg buf)] \<and>
         isgameover (fst (collect_env_state st)) \<and>
         reason (fst (collect_env_state st)) = Some SimulationEnd \<and>
         obsdata (fst (collect_env_state st)) =
           (case fst (GetObservation st) of None \<Rightarrow> None | Some c \<Rightarrow> Some (GetDataContainerPbMsg c)) \<and>
         reward (fst (collect_env_state st)) = fst (GetReward (snd (GetObservation st))))) \<and>
   obsdata (fst (collect_env_state st)) =
     (case m_obsCb st of
        None \<Rightarrow> None
      | Some f \<Rightarrow> (case fst (f (sim st)) of None \<Rightarrow> None | Some c \<Rightarrow> Some (GetDataContainerPbMsg c))) \<and>
   reward (fst (collect_env_state st)) =
     (case m_rewardCb st of
        None \<Rightarrow> 0
      | Some g \<Rightarrow> fst (g (case m_obsCb st of None \<Rightarrow> sim st | Some f \<Rightarrow> snd (f (sim st))))) \<and>
   (m_simEnd st \<longrightarrow> \<not> m_stopEnvRequested st \<longrightarrow> NotifyCurrentState fits st = (Returned, st') \<longrightarrow>
      (\<exists>st0 b. Init fits st = (Returned, st0) \<and> py2cpp st0 = b # py2cpp st' \<and>
         new_events st st' = new_events st st0 @
           [CppSend (EnvState (fst (collect_env_state st0))), RecvEnvAct (as_EnvActMsg b)] \<and>
         isgameover (fst (collect_env_state st0)) \<and>
         reason (fst (collect_env_state st0)) = Some SimulationEnd)) \<and>
   (m_initSimMsgSent st \<longrightarrow> \<not> m_stopEnvRequested st \<longrightarrow> py2cpp st = buf # rest \<longrightarrow>
      NotifySimulationEnd fits st = (r, st') \<longrightarrow>
        (r = Aborted assert_failed \<and> new_events st st' = []) \<or>
        (r = Returned \<and> m_simEnd st' \<and> py2cpp st' = rest \<and>
         new_events st st' =
           [CppSend (EnvState (fst (collect_env_state (st\<lparr>m_simEnd := True\<rparr>)))),
            RecvEnvAct (as_EnvActMsg buf)] \<and>
         isgameover (fst (collect_env_state (st\<lparr>m_simEnd := True\<rparr>))) \<and>
         reason (fst (collect_env_state (st\<lparr>m_simEnd := True\<rparr>))) = Some SimulationEnd \<and>
         obsdata (fst (collect_env_state (st\<lparr>m_simEnd := True\<rparr>))) =
           (case m_obsCb st of
              None \<Rightarrow> None
            | Some f \<Rightarrow> (case fst (f (sim st)) of None \<Rightarrow> None
                                                | Some c \<Rightarrow> Some (GetDataContainerPbMsg c))) \<and>
         reward (fst (collect_env_state (st\<lparr>m_simEnd := True\<rparr>))) =
           (case m_rewardCb st of
              None \<Rightarrow> 0
            | Some g \<Rightarrow> fst (g (case m_obsCb st of None \<Rightarrow> sim st | Some f \<Rightarrow> snd (f (sim st))))))) \<and>
   (\<not> m_initSimMsgSent st \<longrightarrow> NotifySimulationEnd fits st = (Returned, st\<lparr>m_simEnd := True\<rparr>)) \<and>
   (NotifySimulationEnd fits st = (r, st') \<longrightarrow>
      m_simEnd st' \<and> \<not> list_ex is_ActionCb (new_events st st')) \<and>
   (m_simEnd st \<longrightarrow> run fits cs st = (r, st') \<longrightarrow>
      m_simEnd st' \<and> \<not> list_ex is_ActionCb (new_events st st'))"
proof -
  have later: "m_simEnd st' \<and> \<not> list_ex is_ActionCb (new_events st st')"
    if "m_simEnd st" "run fits cs st = (r, st')"
    using call_inv_run [OF that(2)] that(1) by (simp add: call_inv_def)
  have nse: "(r = Aborted assert_failed \<and> new_events st st' = []) \<or>
        (r = Returned \<and> m_simEnd st' \<and> py2cpp st' = rest \<and>
         new_events st st' =
           [CppSend (EnvState (fst (collect_env_state (st\<lparr>m_simEnd := True\<rparr>)))),
            RecvEnvAct (as_EnvActMsg buf)] \<and>
         isgameover (fst (collect_env_state (st\<lparr>m_simEnd := True\<rparr>))) \<and>
         reason (fst (collect_env_state (st\<lparr>m_simEnd := True\<rparr>))) = Some SimulationEnd \<and>
         obsdata (fst (collect_env_state (st\<lparr>m_simEnd := True\<rparr>))) =
           (case m_obsCb st of
              None \<Rightarrow> None
            | Some f \<Rightarrow> (case fst (f (sim st)) of None \<Rightarrow> None
                                                | Some c \<Rightarrow> Some (GetDataContainerPbMsg c))) \<and>
         reward (fst (collect_env_state (st\<lparr>m_simEnd := True\<rparr>))) =
           (case m_rewardCb st of
              None \<Rightarrow> 0
            | Some g \<Rightarrow> fst (g (case m_obsCb st of None \<Rightarrow> sim st | Some f \<Rightarrow> snd (f (sim st))))))"
    if "m_initSimMsgSent st" "\<not> m_stopEnvRequested st" "py2cpp st = buf # rest"
      "NotifySimulationEnd fits st = (r, st')"
    using NotifySimulationEnd_exchange [OF that]
      collect_env_state_callbacks [of "st\<lparr>m_simEnd := True\<rparr>"]
    by (simp only: simEnd_update_fields) blast
  show ?thesis
    using final_exchange [of st buf rest fits r st'] NotifySimulationEnd_no_action [of fits st r st']
      later collect_env_state_callbacks [of st] final_exchange_any [of st fits st']
      nse NotifySimulationEnd_before_Init [of st fits]
    by blast
qed

lemma handshake_inv_new: "handshake_inv (OpenGymInterface_new s replies)"
  by (simp add: handshake_inv_def OpenGymInterface_new_def)

lemma handshake_first_EnvState:
  "handshake_first tr \<Longrightarrow> CppSend (EnvState m) \<in> set tr \<Longrightarrow> handshake_done tr"
  by (cases tr rule: handshake_first.cases) auto

text \<open>
  C9. In every execution from a new interface the trace begins with the handshake, so
  a state message is only ever sent after the \<open>SimInit\<close> message and its
  acknowledgement; and a call of \<open>NotifyCurrentState\<close> made before \<open>Init\<close> has run
  starts with the handshake.
\<close>

theorem Init_precedes_EnvState:
  "handshake_first (trace (snd (run fits cs (OpenGymInterface_new s replies)))) \<and>
   (CppSend (EnvState msg) \<in> set (trace (snd (run fits cs (OpenGymInterface_new s replies)))) \<longrightarrow>
      (\<exists>m a rest. trace (snd (run fits cs (OpenGymInterface_new s replies)))
                     = CppSend (SimInit m) # RecvSimInitAck a # rest)) \<and>
   (\<not> m_initSimMsgSent st \<longrightarrow> handshake_first (new_events st (snd (NotifyCurrentState fits st)))) \<and>
   (\<not> m_initSimMsgSent st \<longrightarrow> NotifyCurrentState fits st = (Returned, st') \<longrightarrow>
      (\<exists>m a rest. new_events st st' = CppSend (SimInit m) # RecvSimInitAck a # rest))"
proof -
  obtain r0 st1 where run: "run fits cs (OpenGymInterface_new s replies) = (r0, st1)"
    by (cases "run fits cs (OpenGymInterface_new s replies)")
  from call_inv_run [OF run] handshake_inv_new [of s replies] have hf: "handshake_first (trace st1)"
    unfolding call_inv_def by blast
  have a: "handshake_first (trace (snd (run fits cs (OpenGymInterface_new s replies))))" using hf run by simp
  have b: "CppSend (EnvState msg) \<in> set (trace (snd (run fits cs (OpenGymInterface_new s replies)))) \<longrightarrow>
      (\<exists>m a rest. trace (snd (run fits cs (OpenGymInterface_new s replies))) = CppSend (SimInit m) # RecvSimInitAck a # rest)"
    using handshake_first_EnvState [OF a] by (simp add: handshake_done_iff)
  have c: "\<not> m_initSimMsgSent st \<longrightarrow> handshake_first (new_events st (snd (NotifyCurrentState fits st)))"
    using NotifyCurrentState_summary(8) [of fits st "fst (NotifyCurrentState fits st)" "snd (NotifyCurrentState fits st)"]
    by simp
  have d: "\<not> m_initSimMsgSent st \<longrightarrow> NotifyCurrentState fits st = (Returned, st') \<longrightarrow>
      (\<exists>m a rest. new_events st st' = CppSend (SimInit m) # RecvSimInitAck a # rest)"
    using NotifyCurrentState_summary(9) [of fits st Returned st'] by simp
  from a b c d show ?thesis by blast
qed

text \<open>
  C10. With the end of the simulation flagged, a call of \<open>NotifyCurrentState\<close> that
  receives an \<open>EnvAct\<close> reply returns, whatever the reply says: the stop flag of the
  interface stays clear and the simulator is neither stopped nor destroyed.
\<close>

theorem simEnd_reply_not_inspected:
  "m_simEnd st \<Longrightarrow> NotifyCurrentState fits st = (r, st') \<Longrightarrow>
   list_ex is_RecvEnvAct (new_events st st') \<Longrightarrow>
     r = Returned \<and> \<not> m_stopEnvRequested st' \<and>
     Simulator_Stop \<notin> set (new_events st st') \<and> Simulator_Destroy \<notin> set (new_events st st')"
  by (rule NotifyCurrentState_summary(7))

subsection \<open>The theorems at concrete runs\<close>

lemmas iface_eval =
  NotifyCurrentState_def Init_def exchange_state_def collect_env_state_def
  GetObservationSpace_def GetActionSpace_def GetObservation_def GetReward_def IsGameOver_def
  GetExtraInfo_def ExecuteActions_def call_cb_def make_envStateMsg_def OpenGymInterface_new_def
  NotifySimulationEnd_def WaitForStop_def Notify_def new_events_def Let_def

theorem Init_idempotent_witness:
  "run (\<lambda>m. True) (replicate (Suc (Suc 0)) Call_Init)
     (OpenGymInterface_new ()
        [\<lparr>as_SimInitAck = \<lparr>ack_done = True, ack_stopsimreq = False\<rparr>,
          as_EnvActMsg = \<lparr>actdata = DataContainer [] (kDiscrete 1), stopsimreq = False\<rparr>\<rparr>]
      :: (unit, unit) OpenGymInterface)
   = Init (\<lambda>m. True)
     (OpenGymInterface_new ()
        [\<lparr>as_SimInitAck = \<lparr>ack_done = True, ack_stopsimreq = False\<rparr>,
          as_EnvActMsg = \<lparr>actdata = DataContainer [] (kDiscrete 1), stopsimreq = False\<rparr>\<rparr>]) \<and>
   (\<exists>msg ack. new_events
      (OpenGymInterface_new ()
        [\<lparr>as_SimInitAck = \<lparr>ack_done = True, ack_stopsimreq = False\<rparr>,
          as_EnvActMsg = \<lparr>actdata = DataContainer [] (kDiscrete 1), stopsimreq = False\<rparr>\<rparr>])
      (snd (Init (\<lambda>m. True)
         (OpenGymInterface_new ()
            [\<lparr>as_SimInitAck = \<lparr>ack_done = True, ack_stopsimreq = False\<rparr>,
              as_EnvActMsg = \<lparr>actdata = DataContainer [] (kDiscrete 1), stopsimreq = False\<rparr>\<rparr>]
          :: (unit, unit) OpenGymInterface)))
      = [CppSend (SimInit msg), RecvSimInitAck ack]) \<and>
   \<not> list_ex is_SimInit_send
      (new_events
         ((OpenGymInterface_new () [] :: (unit, unit) OpenGymInterface)\<lparr>m_initSimMsgSent := True\<rparr>)
         (snd (run (\<lambda>m. True) [Call_Init, Call_NotifyCurrentState]
            ((OpenGymInterface_new () [] :: (unit, unit) OpenGymInterface)\<lparr>m_initSimMsgSent := True\<rparr>))))"
proof -
  let ?F = "\<lambda>m :: unit Cpp2PyMsg. True"
  let ?new = "OpenGymInterface_new ()
        [\<lparr>as_SimInitAck = \<lparr>ack_done = True, ack_stopsimreq = False\<rparr>,
          as_EnvActMsg = \<lparr>actdata = DataContainer [] (kDiscrete 1), stopsimreq = False\<rparr>\<rparr>]
      :: (unit, unit) OpenGymInterface"
  let ?aft = "snd (Init ?F ?new)"
  let ?set = "(OpenGymInterface_new () [] :: (unit, unit) OpenGymInterface)\<lparr>m_initSimMsgSent := True\<rparr>"
  let ?cs = "[Call_Init, Call_NotifyCurrentState] :: (unit, unit) call list"
  have fresh: "\<not> m_initSimMsgSent ?new" by (simp add: OpenGymInterface_new_def)
  have ret: "Init ?F ?new = (Returned, ?aft)" by (simp add: iface_eval)
  have sent: "m_initSimMsgSent ?set" by simp
  have run2: "run ?F ?cs ?set = (fst (run ?F ?cs ?set), snd (run ?F ?cs ?set))" by simp
  note a = Init_idempotent [where fits = ?F and n = "Suc 0" and st = ?new and ?st1.0 = ?aft]
  note b = Init_idempotent [where fits = ?F and st = ?set and cs = ?cs
      and r = "fst (run ?F ?cs ?set)" and ?st2.0 = "snd (run ?F ?cs ?set)"]
  from a fresh ret have "run ?F (replicate (Suc (Suc 0)) Call_Init) ?new = Init ?F ?new"
    and "\<exists>msg ack. new_events ?new ?aft = [CppSend (SimInit msg), RecvSimInitAck ack]"
    by metis+
  moreover from b sent run2 have "\<not> list_ex is_SimInit_send (new_events ?set (snd (run ?F ?cs ?set)))"
    by blast
  ultimately show ?thesis by blast
qed

theorem stop_request_no_action_witness:
  "fst (do_call (\<lambda>m. True) Call_NotifyCurrentState
     ((OpenGymInterface_new ()
         [\<lparr>as_SimInitAck = \<lparr>ack_done = True, ack_stopsimreq = False\<rparr>,
           as_EnvActMsg = \<lparr>actdata = DataContainer [] (kDiscrete 1), stopsimreq = True\<rparr>\<rparr>]
        :: (unit, unit) OpenGymInterface)
      \<lparr>m_initSimMsgSent := True, m_actionCb := Some (\<lambda>c s. (True, s))\<rparr>)) = Exited \<and>
   \<not> list_ex is_ActionCb
      (new_events
        ((OpenGymInterface_new ()
         [\<lparr>as_SimInitAck = \<lparr>ack_done = True, ack_stopsimreq = False\<rparr>,
           as_EnvActMsg = \<lparr>actdata = DataContainer [] (kDiscrete 1), stopsimreq = True\<rparr>\<rparr>]
        :: (unit, unit) OpenGymInterface)
         \<lparr>m_initSimMsgSent := True, m_actionCb := Some (\<lambda>c s. (True, s))\<rparr>)
        (snd (do_call (\<lambda>m. True) Call_NotifyCurrentState
          ((OpenGymInterface_new ()
             [\<lparr>as_SimInitAck = \<lparr>ack_done = True, ack_stopsimreq = False\<rparr>,
               as_EnvActMsg = \<lparr>actdata = DataContainer [] (kDiscrete 1), stopsimreq = True\<rparr>\<rparr>]
            :: (unit, unit) OpenGymInterface)
           \<lparr>m_initSimMsgSent := True, m_actionCb := Some (\<lambda>c s. (True, s))\<rparr>))))"
proof -
  let ?F = "\<lambda>m :: unit Cpp2PyMsg. True"
  let ?st = "(OpenGymInterface_new ()
         [\<lparr>as_SimInitAck = \<lparr>ack_done = True, ack_stopsimreq = False\<rparr>,
           as_EnvActMsg = \<lparr>actdata = DataContainer [] (kDiscrete 1), stopsimreq = True\<rparr>\<rparr>]
        :: (unit, unit) OpenGymInterface)
      \<lparr>m_initSimMsgSent := True, m_actionCb := Some (\<lambda>c s. (True, s))\<rparr>"
  let ?res = "do_call ?F Call_NotifyCurrentState ?st"
  have h1: "?res = (fst ?res, snd ?res)" by simp
  have h2: "list_ex is_stop_reply (new_events ?st (snd ?res))" by (simp add: iface_eval)
  have ex: "fst ?res = Exited" by (simp add: iface_eval)
  from stop_request_no_action [OF h1 h2] ex show ?thesis by blast
qed


theorem simEnd_discards_action_witness:
  "fst (NotifySimulationEnd (\<lambda>m. True)
     ((OpenGymInterface_new ()
         [\<lparr>as_SimInitAck = \<lparr>ack_done = True, ack_stopsimreq = False\<rparr>,
           as_EnvActMsg = \<lparr>actdata = DataContainer [] (kDiscrete 1), stopsimreq = False\<rparr>\<rparr>]
        :: (unit, unit) OpenGymInterface)
      \<lparr>m_initSimMsgSent := True,
        m_obsCb := Some (\<lambda>s. (Some (Discrete 0 7), s)),
        m_rewardCb := Some (\<lambda>s. (5, s)),
        m_actionCb := Some (\<lambda>c s. (True, s))\<rparr>)) = Returned \<and>
   new_events
     ((OpenGymInterface_new ()
         [\<lparr>as_SimInitAck = \<lparr>ack_done = True, ack_stopsimreq = False\<rparr>,
           as_EnvActMsg = \<lparr>actdata = DataContainer [] (kDiscrete 1), stopsimreq = False\<rparr>\<rparr>]
        :: (unit, unit) OpenGymInterface)
      \<lparr>m_initSimMsgSent := True,
        m_obsCb := Some (\<lambda>s. (Some (Discrete 0 7), s)),
        m_rewardCb := Some (\<lambda>s. (5, s)),
        m_actionCb := Some (\<lambda>c s. (True, s))\<rparr>)
     (snd (NotifySimulationEnd (\<lambda>m. True)
       ((OpenGymInterface_new ()
         [\<lparr>as_SimInitAck = \<lparr>ack_done = True, ack_stopsimreq = False\<rparr>,
           as_EnvActMsg = \<lparr>actdata = DataContainer [] (kDiscrete 1), stopsimreq = False\<rparr>\<rparr>]
        :: (unit, unit) OpenGymInterface)
      \<lparr>m_initSimMsgSent := True,
        m_obsCb := Some (\<lambda>s. (Some (Discrete 0 7), s)),
        m_rewardCb := Some (\<lambda>s. (5, s)),
        m_actionCb := Some (\<lambda>c s. (True, s))\<rparr>)))
   = [CppSend (EnvState \<lparr>obsdata = Some (DataContainer [] (kDiscrete 7)), reward = 5,
                         isgameover = True, reason = Some SimulationEnd, info = []\<rparr>),
      RecvEnvAct \<lparr>actdata = DataContainer [] (kDiscrete 1), stopsimreq = False\<rparr>] \<and>
   fst (NotifyCurrentState (\<lambda>m. True)
     ((OpenGymInterface_new ()
         [\<lparr>as_SimInitAck = \<lparr>ack_done = True, ack_stopsimreq = False\<rparr>,
           as_EnvActMsg = \<lparr>actdata = DataContainer [] (kDiscrete 1), stopsimreq = False\<rparr>\<rparr>]
        :: (unit, unit) OpenGymInterface)
      \<lparr>m_simEnd := True, m_initSimMsgSent := True,
        m_obsCb := Some (\<lambda>s. (Some (Discrete 0 7), s)),
        m_rewardCb := Some (\<lambda>s. (5, s)),
        m_actionCb := Some (\<lambda>c s. (True, s))\<rparr>)) = Returned \<and>
   new_events
     ((OpenGymInterface_new ()
         [\<lparr>as_SimInitAck = \<lparr>ack_done = True, ack_stopsimreq = False\<rparr>,
           as_EnvActMsg = \<lparr>actdata = DataContainer [] (kDiscrete 1), stopsimreq = False\<rparr>\<rparr>]
        :: (unit, unit) OpenGymInterface)
      \<lparr>m_simEnd := True, m_initSimMsgSent := True,
        m_obsCb := Some (\<lambda>s. (Some (Discrete 0 7), s)),
        m_rewardCb := Some (\<lambda>s. (5, s)),
        m_actionCb := Some (\<lambda>c s. (True, s))\<rparr>)
     (snd (NotifyCurrentState (\<lambda>m. True)
       ((OpenGymInterface_new ()
         [\<lparr>as_SimInitAck = \<lparr>ack_done = True, ack_stopsimreq = False\<rparr>,
           as_EnvActMsg = \<lparr>actdata = DataContainer [] (kDiscrete 1), stopsimreq = False\<rparr>\<rparr>]
        :: (unit, unit) OpenGymInterface)
      \<lparr>m_simEnd := True, m_initSimMsgSent := True,
        m_obsCb := Some (\<lambda>s. (Some (Discrete 0 7), s)),
        m_rewardCb := Some (\<lambda>s. (5, s)),
        m_actionCb := Some (\<lambda>c s. (True, s))\<rparr>)))
   = [CppSend (EnvState \<lparr>obsdata = Some (DataContainer [] (kDiscrete 7)), reward = 5,
                         isgameover = True, reason = Some SimulationEnd, info = []\<rparr>),
      RecvEnvAct \<lparr>actdata = DataContainer [] (kDiscrete 1), stopsimreq = False\<rparr>] \<and>
   NotifySimulationEnd (\<lambda>m. True)
     (OpenGymInterface_new ()
         [\<lparr>as_SimInitAck = \<lparr>ack_done = True, ack_stopsimreq = False\<rparr>,
           as_EnvActMsg = \<lparr>actdata = DataContainer [] (kDiscrete 1), stopsimreq = False\<rparr>\<rparr>]
        :: (unit, unit) OpenGymInterface)
   = (Returned, (OpenGymInterface_new ()
         [\<lparr>as_SimInitAck = \<lparr>ack_done = True, ack_stopsimreq = False\<rparr>,
           as_EnvActMsg = \<lparr>actdata = DataContainer [] (kDiscrete 1), stopsimreq = False\<rparr>\<rparr>]
        :: (unit, unit) OpenGymInterface)\<lparr>m_simEnd := True\<rparr>) \<and>
   \<not> list_ex is_ActionCb
     (new_events
       ((OpenGymInterface_new ()
         [\<lparr>as_SimInitAck = \<lparr>ack_done = True, ack_stopsimreq = False\<rparr>,
           as_EnvActMsg = \<lparr>actdata = DataContainer [] (kDiscrete 1), stopsimreq = False\<rparr>\<rparr>]
        :: (unit, unit) OpenGymInterface)
      \<lparr>m_simEnd := True, m_initSimMsgSent := True,
        m_obsCb := Some (\<lambda>s. (Some (Discrete 0 7), s)),
        m_rewardCb := Some (\<lambda>s. (5, s)),
        m_actionCb := Some (\<lambda>c s. (True, s))\<rparr>)
       (snd (run (\<lambda>m. True) [Call_NotifyCurrentState, Call_NotifyCurrentState]
         ((OpenGymInterface_new ()
         [\<lparr>as_SimInitAck = \<lparr>ack_done = True, ack_stopsimreq = False\<rparr>,
           as_EnvActMsg = \<lparr>actdata = DataContainer [] (kDiscrete 1), stopsimreq = False\<rparr>\<rparr>]
        :: (unit, unit) OpenGymInterface)
      \<lparr>m_simEnd := True, m_initSimMsgSent := True,
        m_obsCb := Some (\<lambda>s. (Some (Discrete 0 7), s)),
        m_rewardCb := Some (\<lambda>s. (5, s)),
        m_actionCb := Some (\<lambda>c s. (True, s))\<rparr>))))"
proof -
  let ?F = "\<lambda>m :: unit Cpp2PyMsg. True"
  let ?buf = "\<lparr>as_SimInitAck = \<lparr>ack_done = True, ack_stopsimreq = False\<rparr>,
           as_EnvActMsg = \<lparr>actdata = DataContainer [] (kDiscrete 1), stopsimreq = False\<rparr>\<rparr>"
  let ?cold = "OpenGymInterface_new () [?buf] :: (unit, unit) OpenGymInterface"
  let ?ini = "(?cold)\<lparr>m_initSimMsgSent := True,
        m_obsCb := Some (\<lambda>s. (Some (Discrete 0 7), s)),
        m_rewardCb := Some (\<lambda>s. (5, s)),
        m_actionCb := Some (\<lambda>c s. (True, s))\<rparr>"
  let ?fin = "(?cold)\<lparr>m_simEnd := True, m_initSimMsgSent := True,
        m_obsCb := Some (\<lambda>s. (Some (Discrete 0 7), s)),
        m_rewardCb := Some (\<lambda>s. (5, s)),
        m_actionCb := Some (\<lambda>c s. (True, s))\<rparr>"
  let ?cs = "[Call_NotifyCurrentState, Call_NotifyCurrentState] :: (unit, unit) call list"
  let ?msg = "\<lparr>obsdata = Some (DataContainer [] (kDiscrete 7)), reward = 5,
                isgameover = True, reason = Some SimulationEnd, info = []\<rparr>"
  let ?n = "NotifyCurrentState ?F ?fin"
  let ?e = "NotifySimulationEnd ?F ?ini"
  let ?r = "run ?F ?cs ?fin"
  have hf: "m_simEnd ?fin" "m_initSimMsgSent ?fin" "\<not> m_stopEnvRequested ?fin" "py2cpp ?fin = ?buf # []"
    by (simp_all add: OpenGymInterface_new_def)
  have hi: "m_initSimMsgSent ?ini" "\<not> m_stopEnvRequested ?ini" "py2cpp ?ini = ?buf # []"
    by (simp_all add: OpenGymInterface_new_def)
  have hc: "\<not> m_initSimMsgSent ?cold" by (simp add: OpenGymInterface_new_def)
  have n: "?n = (fst ?n, snd ?n)" and e: "?e = (fst ?e, snd ?e)" and r: "?r = (fst ?r, snd ?r)"
    by simp_all
  have fitn: "fst ?n \<noteq> Aborted assert_failed" and fite: "fst ?e \<noteq> Aborted assert_failed"
    by (simp_all add: iface_eval)
  have msgn: "fst (collect_env_state ?fin) = ?msg" by (simp add: iface_eval)
  have msge: "fst (collect_env_state (?ini\<lparr>m_simEnd := True\<rparr>)) = ?msg" by (simp add: iface_eval)
  note a = simEnd_discards_action [where st = ?fin and fits = ?F and buf = ?buf and rest = "[]"
      and r = "fst ?n" and st' = "snd ?n"]
  note b = simEnd_discards_action [where st = ?ini and fits = ?F and buf = ?buf and rest = "[]"
      and r = "fst ?e" and st' = "snd ?e"]
  note c = simEnd_discards_action [where st = ?fin and fits = ?F and cs = ?cs
      and r = "fst ?r" and st' = "snd ?r"]
  note d = simEnd_discards_action [where st = ?cold and fits = ?F]
  from a hf n fitn have "fst ?n = Returned"
    and "new_events ?fin (snd ?n) = [CppSend (EnvState (fst (collect_env_state ?fin))),
                                    RecvEnvAct (as_EnvActMsg ?buf)]"
    by blast+
  moreover from b hi e fite have "fst ?e = Returned"
    and "new_events ?ini (snd ?e) =
           [CppSend (EnvState (fst (collect_env_state (?ini\<lparr>m_simEnd := True\<rparr>)))),
            RecvEnvAct (as_EnvActMsg ?buf)]"
    by blast+
  moreover from c hf(1) r have "\<not> list_ex is_ActionCb (new_events ?fin (snd ?r))" by blast
  moreover from d hc have "NotifySimulationEnd ?F ?cold = (Returned, ?cold\<lparr>m_simEnd := True\<rparr>)"
    by blast
  ultimately show ?thesis by (simp only: msgn msge) simp
qed

theorem Init_precedes_EnvState_witness:
  "handshake_first (trace (snd (run (\<lambda>m. True) [Call_NotifyCurrentState]
     (OpenGymInterface_new ()
        [\<lparr>as_SimInitAck = \<lparr>ack_done = True, ack_stopsimreq = False\<rparr>,
          as_EnvActMsg = \<lparr>actdata = DataContainer [] (kDiscrete 1), stopsimreq = False\<rparr>\<rparr>,
         \<lparr>as_SimInitAck = \<lparr>ack_done = True, ack_stopsimreq = False\<rparr>,
          as_EnvActMsg = \<lparr>actdata = DataContainer [] (kDiscrete 1), stopsimreq = False\<rparr>\<rparr>]
      :: (unit, unit) OpenGymInterface)))) \<and>
   (\<exists>m a rest. trace (snd (run (\<lambda>m. True) [Call_NotifyCurrentState]
     (OpenGymInterface_new ()
        [\<lparr>as_SimInitAck = \<lparr>ack_done = True, ack_stopsimreq = False\<rparr>,
          as_EnvActMsg = \<lparr>actdata = DataContainer [] (kDiscrete 1), stopsimreq = False\<rparr>\<rparr>,
         \<lparr>as_SimInitAck = \<lparr>ack_done = True, ack_stopsimreq = False\<rparr>,
          as_EnvActMsg = \<lparr>actdata = DataContainer [] (kDiscrete 1), stopsimreq = False\<rparr>\<rparr>]
      :: (unit, unit) OpenGymInterface)))
     = CppSend (SimInit m) # RecvSimInitAck a # rest) \<and>
   (\<exists>m a rest. new_events
     (OpenGymInterface_new ()
        [\<lparr>as_SimInitAck = \<lparr>ack_done = True, ack_stopsimreq = False\<rparr>,
          as_EnvActMsg = \<lparr>actdata = DataContainer [] (kDiscrete 1), stopsimreq = False\<rparr>\<rparr>,
         \<lparr>as_SimInitAck = \<lparr>ack_done = True, ack_stopsimreq = False\<rparr>,
          as_EnvActMsg = \<lparr>actdata = DataContainer [] (kDiscrete 1), stopsimreq = False\<rparr>\<rparr>])
     (snd (NotifyCurrentState (\<lambda>m. True)
       (OpenGymInterface_new ()
          [\<lparr>as_SimInitAck = \<lparr>ack_done = True, ack_stopsimreq = False\<rparr>,
            as_EnvActMsg = \<lparr>actdata = DataContainer [] (kDiscrete 1), stopsimreq = False\<rparr>\<rparr>,
           \<lparr>as_SimInitAck = \<lparr>ack_done = True, ack_stopsimreq = False\<rparr>,
            as_EnvActMsg = \<lparr>actdata = DataContainer [] (kDiscrete 1), stopsimreq = False\<rparr>\<rparr>]
        :: (unit, unit) OpenGymInterface)))
     = CppSend (SimInit m) # RecvSimInitAck a # rest)"
proof -
  let ?F = "\<lambda>m :: unit Cpp2PyMsg. True"
  let ?buf = "\<lparr>as_SimInitAck = \<lparr>ack_done = True, ack_stopsimreq = False\<rparr>,
           as_EnvActMsg = \<lparr>actdata = DataContainer [] (kDiscrete 1), stopsimreq = False\<rparr>\<rparr>"
  let ?new = "OpenGymInterface_new () [?buf, ?buf] :: (unit, unit) OpenGymInterface"
  let ?cs = "[Call_NotifyCurrentState] :: (unit, unit) call list"
  let ?msg = "\<lparr>obsdata = None, reward = 0, isgameover = False, reason = None, info = []\<rparr>"
  let ?n = "NotifyCurrentState ?F ?new"
  have fresh: "\<not> m_initSimMsgSent ?new" by (simp add: OpenGymInterface_new_def)
  have ret: "?n = (Returned, snd ?n)" by (simp add: iface_eval)
  have sent: "CppSend (EnvState ?msg) \<in> set (trace (snd (run ?F ?cs ?new)))"
    by (simp add: iface_eval)
  note a = Init_precedes_EnvState [where fits = ?F and cs = ?cs and s = "()" and replies = "[?buf, ?buf]"
      and msg = ?msg and st = ?new and st' = "snd ?n"]
  from a fresh ret sent show ?thesis by blast
qed

theorem simEnd_reply_not_inspected_witness:
  "fst (NotifyCurrentState (\<lambda>m. True)
     ((OpenGymInterface_new ()
         [\<lparr>as_SimInitAck = \<lparr>ack_done = True, ack_stopsimreq = False\<rparr>,
           as_EnvActMsg = \<lparr>actdata = DataContainer [] (kDiscrete 1), stopsimreq = True\<rparr>\<rparr>]
        :: (unit, unit) OpenGymInterface)
      \<lparr>m_simEnd := True, m_initSimMsgSent := True\<rparr>)) = Returned \<and>
   \<not> m_stopEnvRequested (snd (NotifyCurrentState (\<lambda>m. True)
     ((OpenGymInterface_new ()
         [\<lparr>as_SimInitAck = \<lparr>ack_done = True, ack_stopsimreq = False\<rparr>,
           as_EnvActMsg = \<lparr>actdata = DataContainer [] (kDiscrete 1), stopsimreq = True\<rparr>\<rparr>]
        :: (unit, unit) OpenGymInterface)
      \<lparr>m_simEnd := True, m_initSimMsgSent := True\<rparr>))) \<and>
   list_ex is_stop_reply (new_events
     ((OpenGymInterface_new ()
         [\<lparr>as_SimInitAck = \<lparr>ack_done = True, ack_stopsimreq = False\<rparr>,
           as_EnvActMsg = \<lparr>actdata = DataContainer [] (kDiscrete 1), stopsimreq = True\<rparr>\<rparr>]
        :: (unit, unit) OpenGymInterface)
      \<lparr>m_simEnd := True, m_initSimMsgSent := True\<rparr>)
     (snd (NotifyCurrentState (\<lambda>m. True)
       ((OpenGymInterface_new ()
           [\<lparr>as_SimInitAck = \<lparr>ack_done = True, ack_stopsimreq = False\<rparr>,
             as_EnvActMsg = \<lparr>actdata = DataContainer [] (kDiscrete 1), stopsimreq = True\<rparr>\<rparr>]
          :: (unit, unit) OpenGymInterface)
        \<lparr>m_simEnd := True, m_initSimMsgSent := True\<rparr>))))"
proof -
  let ?F = "\<lambda>m :: unit Cpp2PyMsg. True"
  let ?fin = "(OpenGymInterface_new ()
         [\<lparr>as_SimInitAck = \<lparr>ack_done = True, ack_stopsimreq = False\<rparr>,
           as_EnvActMsg = \<lparr>actdata = DataContainer [] (kDiscrete 1), stopsimreq = True\<rparr>\<rparr>]
        :: (unit, unit) OpenGymInterface)
      \<lparr>m_simEnd := True, m_initSimMsgSent := True\<rparr>"
  let ?n = "NotifyCurrentState ?F ?fin"
  have h1: "m_simEnd ?fin" by simp
  have h2: "?n = (fst ?n, snd ?n)" by simp
  have h3: "list_ex is_RecvEnvAct (new_events ?fin (snd ?n))" by (simp add: iface_eval)
  have stop: "list_ex is_stop_reply (new_events ?fin (snd ?n))" by (simp add: iface_eval)
  from simEnd_reply_not_inspected [OF h1 h2 h3] stop show ?thesis by blast
qed

end
